theory Spec2Isabelle
  imports Main "HOL-Library.Word"
begin

section \<open>Post-build validation of an installed package (toolsrc/src/post\_build\_lint.cpp)\<close>

text \<open>
  The development embeds the checks of \<open>post_build_lint.cpp\<close> as HOL functions.
  What the C++ obtains from its surroundings is made explicit:
  \<^item> the filesystem is a tree of named nodes, read-only during a run;
  \<^item> the external tools (dumpbin, the COFF reader) are functions of an environment;
  \<^item> \<open>System::println\<close> appends to a list of printed items that every check returns;
  \<^item> \<open>Checks::check_exit\<close> with a false condition ends the run: a check that can do so
    returns a sum whose left injection carries the message.
\<close>

subsection \<open>Strings, paths and printed output\<close>

definition dquote :: char where
  "dquote = CHR 0x22"

definition backslash :: char where
  "backslash = CHR 0x5C"

definition newline :: char where
  "newline = CHR 0x0A"

text \<open>\<open>std::to_string\<close> and the \<open>%d\<close>/\<open>%u\<close> conversions on an unsigned value: decimal digits,
  most significant first, no leading zero.\<close>

definition digit_char :: "nat \<Rightarrow> char" where
  "digit_char d = ''0123456789'' ! d"

function to_string :: "nat \<Rightarrow> string" where
  "to_string n = (if n < 10 then [digit_char n] else to_string (n div 10) @ [digit_char (n mod 10)])"
  by pat_completeness auto
termination
  by (relation "measure id") auto

declare to_string.simps [simp del]

text \<open>A path is the list of its components; \<open>p / "x"\<close> is \<open>p @ [''x'']\<close>.\<close>

type_synonym path = "string list"

fun join :: "string \<Rightarrow> string list \<Rightarrow> string" where
  "join sep [] = []"
| "join sep [x] = x"
| "join sep (x # y # ys) = x @ sep @ join sep (y # ys)"

definition generic_string :: "path \<Rightarrow> string" where
  "generic_string p = join ''/'' p"

text \<open>\<open>native()\<close> and \<open>string()\<close>: the components with the platform's separator.\<close>

definition native :: "path \<Rightarrow> string" where
  "native p = join [backslash] p"

definition filename :: "path \<Rightarrow> string" where
  "filename p = (if p = [] then [] else last p)"

text \<open>\<open>path::extension()\<close> of \<open>std::tr2::sys\<close>: the part of the file name from its last
  period on, empty when there is no period and for the names \<open>.\<close> and \<open>..\<close>.\<close>

definition extension_of :: "string \<Rightarrow> string" where
  "extension_of fname =
     (if CHR ''.'' \<notin> set fname \<or> fname = ''.'' \<or> fname = ''..'' then []
      else CHR ''.'' # rev (takeWhile (\<lambda>c. c \<noteq> CHR ''.'') (rev fname)))"

definition extension :: "path \<Rightarrow> string" where
  "extension p = extension_of (filename p)"

datatype color = no_color | warning | error

type_synonym printed = "color \<times> string"

text \<open>\<open>print_vector_of_files\<close> (lines 25-33).\<close>

definition print_vector_of_files :: "path list \<Rightarrow> printed list" where
  "print_vector_of_files paths =
     [(no_color, [])] @ map (\<lambda>p. (no_color, ''    '' @ generic_string p)) paths @ [(no_color, [])]"

datatype lint_status = SUCCESS | ERROR_DETECTED

text \<open>\<open>static_cast<size_t>(right)\<close> in \<open>operator +=\<close> (lines 602-605).\<close>

fun status_value :: "lint_status \<Rightarrow> nat" where
  "status_value SUCCESS = 0"
| "status_value ERROR_DETECTED = 1"

text \<open>The result of a check that cannot end the run: what it printed and its status.\<close>

type_synonym check_result = "printed list \<times> lint_status"

text \<open>The result of a check that calls \<open>Checks::check_exit\<close>: \<open>Inl\<close> the message of the
  failed check (the run ends there), \<open>Inr\<close> the ordinary result.\<close>

type_synonym fallible_check_result = "string + check_result"

subsection \<open>The filesystem\<close>

text \<open>A file with its size in bytes, or a directory with its named entries in iteration
  order.\<close>

datatype node = File nat | Dir "(string \<times> node) list"

fun lookup :: "node \<Rightarrow> path \<Rightarrow> node option" where
  "lookup n [] = Some n"
| "lookup (File sz) (c # cs) = None"
| "lookup (Dir es) (c # cs) = (case map_of es c of None \<Rightarrow> None | Some n \<Rightarrow> lookup n cs)"

definition exists :: "node \<Rightarrow> path \<Rightarrow> bool" where
  "exists root p = (lookup root p \<noteq> None)"

fun node_is_directory :: "node \<Rightarrow> bool" where
  "node_is_directory (Dir es) = True"
| "node_is_directory (File sz) = False"

text \<open>\<open>fs::is_empty\<close>: a directory without entries, or a file of size zero.\<close>

fun node_is_empty :: "node \<Rightarrow> bool" where
  "node_is_empty (Dir es) = (es = [])"
| "node_is_empty (File sz) = (sz = 0)"

text \<open>\<open>fs::is_empty(path)\<close>. Every call of the source on a path is guarded by
  \<open>fs::exists\<close>, so the value chosen for a missing path is never used.\<close>

definition is_empty :: "node \<Rightarrow> path \<Rightarrow> bool" where
  "is_empty root p = (case lookup root p of None \<Rightarrow> False | Some n \<Rightarrow> node_is_empty n)"

text \<open>An element of a recursive directory iteration: its path, its node and the depth
  of the iteration at it (0 for the entries of the directory the iteration started in).\<close>

type_synonym dir_entry = "path \<times> node \<times> nat"

definition entry_path :: "dir_entry \<Rightarrow> path" where
  "entry_path e = fst e"

definition is_directory :: "dir_entry \<Rightarrow> bool" where
  "is_directory e = node_is_directory (fst (snd e))"

definition entry_is_empty :: "dir_entry \<Rightarrow> bool" where
  "entry_is_empty e = node_is_empty (fst (snd e))"

definition depth :: "dir_entry \<Rightarrow> nat" where
  "depth e = snd (snd e)"

fun walk :: "path \<Rightarrow> nat \<Rightarrow> node \<Rightarrow> dir_entry list"
  and walk_children :: "path \<Rightarrow> nat \<Rightarrow> (string \<times> node) list \<Rightarrow> dir_entry list"
where
  "walk p d (File sz) = []"
| "walk p d (Dir es) = walk_children p d es"
| "walk_children p d [] = []"
| "walk_children p d ((n, c) # es) =
     (p @ [n], c, d) # walk (p @ [n]) (Suc d) c @ walk_children p d es"

text \<open>\<open>fs::recursive_directory_iterator(dir)\<close>: every entry below \<open>dir\<close>, each directory
  before its contents. On a path that is no directory the iteration of \<open>std::tr2::sys\<close> is
  empty (the source iterates over directories that need not exist, lines 82, 127-130).\<close>

definition recursive_directory_iterator :: "node \<Rightarrow> path \<Rightarrow> dir_entry list" where
  "recursive_directory_iterator root dir =
     (case lookup root dir of Some (Dir es) \<Rightarrow> walk_children dir 0 es | _ \<Rightarrow> [])"

text \<open>\<open>recursive_find_matching_paths_in_dir\<close> (lines 35-47): \<open>std::copy_if\<close> over the
  iteration, appended to the output vector.\<close>

definition recursive_find_matching_paths_in_dir ::
  "node \<Rightarrow> path \<Rightarrow> (dir_entry \<Rightarrow> bool) \<Rightarrow> path list" where
  "recursive_find_matching_paths_in_dir root dir predicate =
     map entry_path (filter predicate (recursive_directory_iterator root dir))"

text \<open>\<open>recursive_find_files_with_extension_in_dir\<close> (lines 49-62).\<close>

definition recursive_find_files_with_extension_in_dir :: "node \<Rightarrow> path \<Rightarrow> string \<Rightarrow> path list" where
  "recursive_find_files_with_extension_in_dir root dir ext =
     recursive_find_matching_paths_in_dir root dir
       (\<lambda>current. \<not> is_directory current \<and> extension (entry_path current) = ext)"

subsection \<open>The inputs of a run\<close>

text \<open>\<open>package_spec\<close> and \<open>vcpkg_paths\<close> are declared in headers outside this file; the
  records hold what the checks read from them.\<close>

record package_spec =
  spec_name :: string
  spec_dir :: string
  target_architecture :: string
  target_system :: string

record vcpkg_paths =
  packages :: path
  buildtrees :: path
  ports :: path

record BuildInfo =
  library_linkage :: string
  crt_linkage :: string

text \<open>\<open>MachineType\<close> is an enumeration over \<open>uint16_t\<close> declared in coff\_file\_reader.h;
  the values of the enumerators that \<open>get_actual_architecture\<close> names are a parameter.\<close>

type_synonym MachineType = "16 word"

record MachineType_codes =
  AMD64 :: MachineType
  IA64 :: MachineType
  I386 :: MachineType
  ARM :: MachineType
  ARMNT :: MachineType

text \<open>What a run reads from outside the program: the filesystem, the command processor
  (exit code and captured output of a command line) and the COFF reader.\<close>

record environment =
  filesystem :: node
  cmd_execute_and_capture_output :: "string \<Rightarrow> int \<times> string"
  read_dll :: "path \<Rightarrow> MachineType"
  read_lib :: "path \<Rightarrow> MachineType list"
  machine_types :: MachineType_codes

subsection \<open>Layout checks (lines 65-233)\<close>

definition check_for_files_in_include_directory ::
  "environment \<Rightarrow> package_spec \<Rightarrow> vcpkg_paths \<Rightarrow> check_result" where
  "check_for_files_in_include_directory env spec paths =
     (let include_dir = packages paths @ [spec_dir spec] @ [''include''] in
      if \<not> exists (filesystem env) include_dir \<or> is_empty (filesystem env) include_dir
      then ([(warning, ''The folder /include is empty. This indicates the library was not correctly installed.'')],
            ERROR_DETECTED)
      else ([], SUCCESS))"

definition check_for_files_in_debug_include_directory ::
  "environment \<Rightarrow> package_spec \<Rightarrow> vcpkg_paths \<Rightarrow> check_result" where
  "check_for_files_in_debug_include_directory env spec paths =
     (let debug_include_dir = packages paths @ [spec_dir spec] @ [''debug''] @ [''include''];
          files_found = recursive_find_matching_paths_in_dir (filesystem env) debug_include_dir
            (\<lambda>current. \<not> is_directory current \<and> extension (entry_path current) \<noteq> ''.ifc'')
      in
      if files_found \<noteq> []
      then ([(warning, ''Include files should not be duplicated into the /debug/include directory. If this cannot be disabled in the project cmake, use''
                       @ [newline] @ ''    file(REMOVE_RECURSE ${CURRENT_PACKAGES_DIR}/debug/include)'')],
            ERROR_DETECTED)
      else ([], SUCCESS))"

definition check_for_files_in_debug_share_directory ::
  "environment \<Rightarrow> package_spec \<Rightarrow> vcpkg_paths \<Rightarrow> check_result" where
  "check_for_files_in_debug_share_directory env spec paths =
     (let debug_share = packages paths @ [spec_dir spec] @ [''debug''] @ [''share''] in
      if exists (filesystem env) debug_share \<and> \<not> is_empty (filesystem env) debug_share
      then ([(warning, ''No files should be present in /debug/share'')], ERROR_DETECTED)
      else ([], SUCCESS))"

definition check_folder_lib_cmake ::
  "environment \<Rightarrow> package_spec \<Rightarrow> vcpkg_paths \<Rightarrow> check_result" where
  "check_folder_lib_cmake env spec paths =
     (let lib_cmake = packages paths @ [spec_dir spec] @ [''lib''] @ [''cmake''] in
      if exists (filesystem env) lib_cmake
      then ([(warning, ''The /lib/cmake folder should be moved to just /cmake'')], ERROR_DETECTED)
      else ([], SUCCESS))"

definition check_for_misplaced_cmake_files ::
  "environment \<Rightarrow> package_spec \<Rightarrow> vcpkg_paths \<Rightarrow> check_result" where
  "check_for_misplaced_cmake_files env spec paths =
     (let current_packages_dir = packages paths @ [spec_dir spec];
          misplaced_cmake_files =
            recursive_find_files_with_extension_in_dir (filesystem env)
              (current_packages_dir @ [''cmake'']) ''.cmake''
            @ recursive_find_files_with_extension_in_dir (filesystem env)
              (current_packages_dir @ [''debug''] @ [''cmake'']) ''.cmake''
            @ recursive_find_files_with_extension_in_dir (filesystem env)
              (current_packages_dir @ [''lib''] @ [''cmake'']) ''.cmake''
            @ recursive_find_files_with_extension_in_dir (filesystem env)
              (current_packages_dir @ [''debug''] @ [''lib''] @ [''cmake'']) ''.cmake''
      in
      if misplaced_cmake_files \<noteq> []
      then ([(warning, ''The following cmake files were found outside /share/'' @ spec_name spec
                       @ ''. Please place cmake files in /share/'' @ spec_name spec @ ''.'')]
            @ print_vector_of_files misplaced_cmake_files,
            ERROR_DETECTED)
      else ([], SUCCESS))"

definition check_folder_debug_lib_cmake ::
  "environment \<Rightarrow> package_spec \<Rightarrow> vcpkg_paths \<Rightarrow> check_result" where
  "check_folder_debug_lib_cmake env spec paths =
     (let lib_cmake_debug = packages paths @ [spec_dir spec] @ [''debug''] @ [''lib''] @ [''cmake''] in
      if exists (filesystem env) lib_cmake_debug
      then ([(warning, ''The /debug/lib/cmake folder should be moved to just /debug/cmake'')],
            ERROR_DETECTED)
      else ([], SUCCESS))"

definition check_for_dlls_in_lib_dirs ::
  "environment \<Rightarrow> package_spec \<Rightarrow> vcpkg_paths \<Rightarrow> check_result" where
  "check_for_dlls_in_lib_dirs env spec paths =
     (let dlls =
            recursive_find_files_with_extension_in_dir (filesystem env)
              (packages paths @ [spec_dir spec] @ [''lib'']) ''.dll''
            @ recursive_find_files_with_extension_in_dir (filesystem env)
              (packages paths @ [spec_dir spec] @ [''debug''] @ [''lib'']) ''.dll''
      in
      if dlls \<noteq> []
      then ([(warning, [newline] @ ''The following dlls were found in /lib and /debug/lib. Please move them to /bin or /debug/bin, respectively.'')]
            @ print_vector_of_files dlls,
            ERROR_DETECTED)
      else ([], SUCCESS))"

text \<open>\<open>check_for_copyright_file\<close> (lines 170-217). The loop keeps the entries of depth
  at most 1 whose file name is one of three. \<open>relative_path\<close> erases from the found path
  the characters of the build tree directory and one separator: the found path lies below
  that directory, so these are its leading components.\<close>

definition check_for_copyright_file ::
  "environment \<Rightarrow> package_spec \<Rightarrow> vcpkg_paths \<Rightarrow> check_result" where
  "check_for_copyright_file env spec paths =
     (let copyright_file = packages paths @ [spec_dir spec] @ [''share''] @ [spec_name spec] @ [''copyright''] in
      if exists (filesystem env) copyright_file then ([], SUCCESS)
      else
        let current_buildtrees_dir = buildtrees paths @ [spec_name spec];
            current_buildtrees_dir_src = current_buildtrees_dir @ [''src''];
            potential_copyright_files =
              map entry_path
                (filter (\<lambda>it. \<not> depth it > 1 \<and>
                     (filename (entry_path it) = ''LICENSE'' \<or> filename (entry_path it) = ''LICENSE.txt''
                      \<or> filename (entry_path it) = ''COPYING''))
                   (recursive_directory_iterator (filesystem env) current_buildtrees_dir_src));
            out1 = [(warning, ''The software license must be available at ${CURRENT_PACKAGES_DIR}/share/''
                              @ spec_name spec @ ''/copyright .'')]
        in
        if length potential_copyright_files = 1
        then
          let found_file = hd potential_copyright_files;
              relative_path = drop (length current_buildtrees_dir) found_file
          in (out1 @
              [(no_color, [newline] @ ''    file(COPY ${CURRENT_BUILDTREES_DIR}/'' @ generic_string relative_path
                          @ '' DESTINATION ${CURRENT_PACKAGES_DIR}/share/'' @ spec_name spec @ '')'' @ [newline]
                          @ ''    file(RENAME ${CURRENT_PACKAGES_DIR}/share/'' @ spec_name spec @ ''/''
                          @ generic_string [filename found_file] @ '' ${CURRENT_PACKAGES_DIR}/share/''
                          @ spec_name spec @ ''/copyright)'')],
              ERROR_DETECTED)
        else
          let out2 = (if length potential_copyright_files > 1
                      then [(warning, ''The following files are potential copyright files:'')]
                           @ print_vector_of_files potential_copyright_files
                      else []);
              current_packages_dir = packages paths @ [spec_dir spec]
          in (out1 @ out2 @
              [(no_color, ''    '' @ generic_string current_packages_dir @ ''/share/'' @ spec_name spec
                          @ ''/copyright'')],
              ERROR_DETECTED))"

definition check_for_exes ::
  "environment \<Rightarrow> package_spec \<Rightarrow> vcpkg_paths \<Rightarrow> check_result" where
  "check_for_exes env spec paths =
     (let exes =
            recursive_find_files_with_extension_in_dir (filesystem env)
              (packages paths @ [spec_dir spec] @ [''bin'']) ''.exe''
            @ recursive_find_files_with_extension_in_dir (filesystem env)
              (packages paths @ [spec_dir spec] @ [''debug''] @ [''bin'']) ''.exe''
      in
      if exes \<noteq> []
      then ([(warning, ''The following EXEs were found in /bin and /debug/bin. EXEs are not valid distribution targets.'')]
            @ print_vector_of_files exes,
            ERROR_DETECTED)
      else ([], SUCCESS))"

subsection \<open>Checks of dynamic libraries (lines 235-290)\<close>

text \<open>\<open>DUMPBIN_EXE.native()\<close> (line 21).\<close>

definition DUMPBIN_EXE :: string where
  "DUMPBIN_EXE = ''%VS140COMNTOOLS%'' @ [backslash] @ ''..'' @ [backslash] @ ''..'' @ [backslash]
                 @ ''VC'' @ [backslash] @ ''bin'' @ [backslash] @ ''dumpbin.exe''"

definition dumpbin_cmd_line :: "string \<Rightarrow> path \<Rightarrow> string" where
  "dumpbin_cmd_line flag file =
     [dquote] @ DUMPBIN_EXE @ [dquote] @ '' '' @ flag @ '' '' @ [dquote] @ native file @ [dquote]"

definition command_failed :: "string \<Rightarrow> string" where
  "command_failed cmd_line = ''Running command:'' @ [newline] @ ''   '' @ cmd_line @ [newline] @ '' failed''"

fun starts_with :: "string \<Rightarrow> string \<Rightarrow> bool" where
  "starts_with s [] = True"
| "starts_with [] (c # cs) = False"
| "starts_with (x # xs) (c # cs) = (x = c \<and> starts_with xs cs)"

text \<open>\<open>output.find(needle) != std::string::npos\<close>.\<close>

fun string_find :: "string \<Rightarrow> string \<Rightarrow> bool" where
  "string_find [] needle = (needle = [])"
| "string_find (c # cs) needle = (starts_with (c # cs) needle \<or> string_find cs needle)"

text \<open>The loop of \<open>check_exports_of_dlls\<close> (lines 238-248), with the vector
  \<open>dlls_with_no_exports\<close> as accumulator.\<close>

fun exports_loop :: "environment \<Rightarrow> path list \<Rightarrow> path list \<Rightarrow> string + path list" where
  "exports_loop env [] dlls_with_no_exports = Inr dlls_with_no_exports"
| "exports_loop env (dll # dlls) dlls_with_no_exports =
     (let cmd_line = dumpbin_cmd_line ''/exports'' dll;
          ec_data = cmd_execute_and_capture_output env cmd_line
      in
      if fst ec_data \<noteq> 0 then Inl (command_failed cmd_line)
      else exports_loop env dlls
             (if \<not> string_find (snd ec_data) ''ordinal hint RVA      name''
              then dlls_with_no_exports @ [dll] else dlls_with_no_exports))"

definition check_exports_of_dlls :: "environment \<Rightarrow> path list \<Rightarrow> fallible_check_result" where
  "check_exports_of_dlls env dlls =
     (case exports_loop env dlls [] of
        Inl msg \<Rightarrow> Inl msg
      | Inr dlls_with_no_exports \<Rightarrow>
          if dlls_with_no_exports \<noteq> []
          then Inr ([(warning, ''The following DLLs have no exports:'')]
                    @ print_vector_of_files dlls_with_no_exports
                    @ [(warning, ''DLLs without any exports are likely a bug in the build script.'')],
                    ERROR_DETECTED)
          else Inr ([], SUCCESS))"

fun uwp_loop :: "environment \<Rightarrow> path list \<Rightarrow> path list \<Rightarrow> string + path list" where
  "uwp_loop env [] dlls_with_improper_uwp_bit = Inr dlls_with_improper_uwp_bit"
| "uwp_loop env (dll # dlls) dlls_with_improper_uwp_bit =
     (let cmd_line = dumpbin_cmd_line ''/headers'' dll;
          ec_data = cmd_execute_and_capture_output env cmd_line
      in
      if fst ec_data \<noteq> 0 then Inl (command_failed cmd_line)
      else uwp_loop env dlls
             (if \<not> string_find (snd ec_data) ''App Container''
              then dlls_with_improper_uwp_bit @ [dll] else dlls_with_improper_uwp_bit))"

definition check_uwp_bit_of_dlls ::
  "environment \<Rightarrow> string \<Rightarrow> path list \<Rightarrow> fallible_check_result" where
  "check_uwp_bit_of_dlls env expected_system_name dlls =
     (if expected_system_name \<noteq> ''uwp'' then Inr ([], SUCCESS)
      else
        case uwp_loop env dlls [] of
          Inl msg \<Rightarrow> Inl msg
        | Inr dlls_with_improper_uwp_bit \<Rightarrow>
            if dlls_with_improper_uwp_bit \<noteq> []
            then Inr ([(warning, ''The following DLLs do not have the App Container bit set:'')]
                      @ print_vector_of_files dlls_with_improper_uwp_bit
                      @ [(warning, ''This bit is required for Windows Store apps.'')],
                      ERROR_DETECTED)
            else Inr ([], SUCCESS))"

subsection \<open>Architecture checks (lines 292-376)\<close>

text \<open>\<open>get_actual_architecture\<close> (lines 298-313). The case labels of a C++ switch are
  distinct, so the order of the tests is immaterial there.\<close>

definition get_actual_architecture :: "MachineType_codes \<Rightarrow> MachineType \<Rightarrow> string" where
  "get_actual_architecture mt machine_type =
     (if machine_type = AMD64 mt \<or> machine_type = IA64 mt then ''x64''
      else if machine_type = I386 mt then ''x86''
      else if machine_type = ARM mt \<or> machine_type = ARMNT mt then ''arm''
      else ''Machine Type Code = '' @ to_string (unat machine_type))"

type_synonym file_and_arch = "path \<times> string"

definition print_invalid_architecture_files :: "string \<Rightarrow> file_and_arch list \<Rightarrow> printed list" where
  "print_invalid_architecture_files expected_architecture binaries_with_invalid_architecture =
     [(warning, ''The following files were built for an incorrect architecture:''), (no_color, [])]
     @ concat (map (\<lambda>b. [(no_color, ''    '' @ generic_string (fst b)),
                            (no_color, ''Expected '' @ expected_architecture @ '', but was: '' @ snd b),
                            (no_color, [])])
                binaries_with_invalid_architecture)"

fun dll_architecture_loop ::
  "environment \<Rightarrow> string \<Rightarrow> path list \<Rightarrow> file_and_arch list \<Rightarrow> string + file_and_arch list" where
  "dll_architecture_loop env expected_architecture [] binaries_with_invalid_architecture =
     Inr binaries_with_invalid_architecture"
| "dll_architecture_loop env expected_architecture (file # files) binaries_with_invalid_architecture =
     (if extension file \<noteq> ''.dll''
      then Inl (''The file extension was not .dll: '' @ generic_string file)
      else
        let actual_architecture = get_actual_architecture (machine_types env) (read_dll env file)
        in dll_architecture_loop env expected_architecture files
             (if expected_architecture \<noteq> actual_architecture
              then binaries_with_invalid_architecture @ [(file, actual_architecture)]
              else binaries_with_invalid_architecture))"

definition check_dll_architecture ::
  "environment \<Rightarrow> string \<Rightarrow> path list \<Rightarrow> fallible_check_result" where
  "check_dll_architecture env expected_architecture files =
     (case dll_architecture_loop env expected_architecture files [] of
        Inl msg \<Rightarrow> Inl msg
      | Inr binaries_with_invalid_architecture \<Rightarrow>
          if binaries_with_invalid_architecture \<noteq> []
          then Inr (print_invalid_architecture_files expected_architecture binaries_with_invalid_architecture,
                    ERROR_DETECTED)
          else Inr ([], SUCCESS))"

text \<open>The loop of \<open>check_lib_architecture\<close> (lines 356-367): two calls of
  \<open>Checks::check_exit\<close> per file, then \<open>machine_types.at(0)\<close>, which the second of them
  guards.\<close>

fun lib_architecture_loop ::
  "environment \<Rightarrow> string \<Rightarrow> path list \<Rightarrow> file_and_arch list \<Rightarrow> string + file_and_arch list" where
  "lib_architecture_loop env expected_architecture [] binaries_with_invalid_architecture =
     Inr binaries_with_invalid_architecture"
| "lib_architecture_loop env expected_architecture (file # files) binaries_with_invalid_architecture =
     (if extension file \<noteq> ''.lib''
      then Inl (''The file extension was not .lib: '' @ generic_string file)
      else if length (read_lib env file) \<noteq> 1
      then Inl (''Found more than 1 architecture in file '' @ generic_string file)
      else
        let actual_architecture = get_actual_architecture (machine_types env) (hd (read_lib env file))
        in lib_architecture_loop env expected_architecture files
             (if expected_architecture \<noteq> actual_architecture
              then binaries_with_invalid_architecture @ [(file, actual_architecture)]
              else binaries_with_invalid_architecture))"

definition check_lib_architecture ::
  "environment \<Rightarrow> string \<Rightarrow> path list \<Rightarrow> fallible_check_result" where
  "check_lib_architecture env expected_architecture files =
     (case lib_architecture_loop env expected_architecture files [] of
        Inl msg \<Rightarrow> Inl msg
      | Inr binaries_with_invalid_architecture \<Rightarrow>
          if binaries_with_invalid_architecture \<noteq> []
          then Inr (print_invalid_architecture_files expected_architecture binaries_with_invalid_architecture,
                    ERROR_DETECTED)
          else Inr ([], SUCCESS))"

subsection \<open>Counts of binaries, static builds, empty folders (lines 378-490)\<close>

definition check_no_dlls_present :: "path list \<Rightarrow> check_result" where
  "check_no_dlls_present dlls =
     (if dlls = [] then ([], SUCCESS)
      else ([(warning, ''DLLs should not be present in a static build, but the following DLLs were found:'')]
            @ print_vector_of_files dlls,
            ERROR_DETECTED))"

definition check_matching_debug_and_release_binaries :: "path list \<Rightarrow> path list \<Rightarrow> check_result" where
  "check_matching_debug_and_release_binaries debug_binaries release_binaries =
     (let debug_count = length debug_binaries;
          release_count = length release_binaries
      in
      if debug_count = release_count then ([], SUCCESS)
      else
        ([(warning, ''Mismatching number of debug and release binaries. Found '' @ to_string debug_count
                    @ '' for debug but '' @ to_string release_count @ '' for release.''),
          (no_color, ''Debug binaries'')]
         @ print_vector_of_files debug_binaries
         @ [(no_color, ''Release binaries'')]
         @ print_vector_of_files release_binaries
         @ (if debug_count = 0 then [(warning, ''Debug binaries were not found'')] else [])
         @ (if release_count = 0 then [(warning, ''Release binaries were not found'')] else [])
         @ [(no_color, [])],
         ERROR_DETECTED))"

definition check_bin_folders_are_not_present_in_static_build ::
  "environment \<Rightarrow> package_spec \<Rightarrow> vcpkg_paths \<Rightarrow> check_result" where
  "check_bin_folders_are_not_present_in_static_build env spec paths =
     (let bin = packages paths @ [spec_dir spec] @ [''bin''];
          debug_bin = packages paths @ [spec_dir spec] @ [''debug''] @ [''bin'']
      in
      if \<not> exists (filesystem env) bin \<and> \<not> exists (filesystem env) debug_bin then ([], SUCCESS)
      else
        ((if exists (filesystem env) bin
          then [(warning, ''There should be no bin'' @ [backslash] @ '' directory in a static build, but ''
                          @ generic_string bin @ '' is present.'')]
          else [])
         @ (if exists (filesystem env) debug_bin
            then [(warning, ''There should be no debug'' @ [backslash] @ ''bin'' @ [backslash]
                            @ '' directory in a static build, but '' @ generic_string debug_bin @ '' is present.'')]
            else [])
         @ [(warning, ''If the creation of bin'' @ [backslash] @ '' and/or debug'' @ [backslash] @ ''bin''
                      @ [backslash] @ '' cannot be disabled, use this in the portfile to remove them'' @ [newline]
                      @ [newline]
                      @ ''    if(VCPKG_LIBRARY_LINKAGE STREQUAL static)'' @ [newline]
                      @ ''        file(REMOVE_RECURSE ${CURRENT_PACKAGES_DIR}/bin ${CURRENT_PACKAGES_DIR}/debug/bin)'' @ [newline]
                      @ ''    endif()''
                      @ [newline])],
         ERROR_DETECTED))"

definition check_no_empty_folders :: "environment \<Rightarrow> path \<Rightarrow> check_result" where
  "check_no_empty_folders env dir =
     (let empty_directories = recursive_find_matching_paths_in_dir (filesystem env) dir
            (\<lambda>current. is_directory current \<and> entry_is_empty current)
      in
      if empty_directories \<noteq> []
      then ([(warning, ''There should be no empty directories in '' @ generic_string dir),
             (no_color, ''The following empty directories were found: '')]
            @ print_vector_of_files empty_directories
            @ [(warning, ''If a directory should be populated but is not, this might indicate an error in the portfile.'' @ [newline]
                         @ ''If the directories are not needed and their creation cannot be disabled, use something like this in the portfile to remove them)'' @ [newline]
                         @ [newline]
                         @ ''    file(REMOVE_RECURSE ${CURRENT_PACKAGES_DIR}/a/dir ${CURRENT_PACKAGES_DIR}/some/other/dir)'' @ [newline]
                         @ [newline])],
            ERROR_DETECTED)
      else ([], SUCCESS))"

subsection \<open>C runtime linkage of static libraries (lines 492-600)\<close>

text \<open>The four regular expressions of the source are sequences of literal characters,
  two of them ended by the negated class \<open>[^D]\<close>. \<open>std::regex_search\<close> succeeds when the
  expression matches at some position of the text; a negated class consumes one character.\<close>

datatype regex_atom = Lit char | NotChar char

type_synonym regex = "regex_atom list"

fun atom_matches :: "regex_atom \<Rightarrow> char \<Rightarrow> bool" where
  "atom_matches (Lit a) c = (c = a)"
| "atom_matches (NotChar a) c = (c \<noteq> a)"

fun match_here :: "regex \<Rightarrow> string \<Rightarrow> bool" where
  "match_here [] s = True"
| "match_here (a # as) [] = False"
| "match_here (a # as) (c # cs) = (atom_matches a c \<and> match_here as cs)"

fun regex_search :: "string \<Rightarrow> regex \<Rightarrow> bool" where
  "regex_search [] re = match_here re []"
| "regex_search (c # cs) re = (match_here re (c # cs) \<or> regex_search cs re)"

definition DEBUG_STATIC_CRT :: regex where
  "DEBUG_STATIC_CRT = map Lit ''/DEFAULTLIB:LIBCMTD''"

definition DEBUG_DYNAMIC_CRT :: regex where
  "DEBUG_DYNAMIC_CRT = map Lit ''/DEFAULTLIB:MSVCRTD''"

definition RELEASE_STATIC_CRT :: regex where
  "RELEASE_STATIC_CRT = map Lit ''/DEFAULTLIB:LIBCMT'' @ [NotChar CHR ''D'']"

definition RELEASE_DYNAMIC_CRT :: regex where
  "RELEASE_DYNAMIC_CRT = map Lit ''/DEFAULTLIB:MSVCRT'' @ [NotChar CHR ''D'']"

datatype BuildType = DEBUG_STATIC | DEBUG_DYNAMIC | RELEASE_STATIC | RELEASE_DYNAMIC

text \<open>The six vectors that the loop of \<open>check_crt_linkage_of_libs\<close> fills (lines 512-518).\<close>

record crt_groups =
  libs_with_no_crts :: "path list"
  libs_with_multiple_crts :: "path list"
  libs_with_debug_static_crt :: "path list"
  libs_with_debug_dynamic_crt :: "path list"
  libs_with_release_static_crt :: "path list"
  libs_with_release_dynamic_crt :: "path list"

definition no_libs :: crt_groups where
  "no_libs = \<lparr>libs_with_no_crts = [], libs_with_multiple_crts = [],
              libs_with_debug_static_crt = [], libs_with_debug_dynamic_crt = [],
              libs_with_release_static_crt = [], libs_with_release_dynamic_crt = []\<rparr>"

text \<open>\<open>crts_found_count\<close> (line 531): the sum of the four booleans.\<close>

definition crts_found_count :: "string \<Rightarrow> nat" where
  "crts_found_count output =
     of_bool (regex_search output DEBUG_STATIC_CRT) + of_bool (regex_search output DEBUG_DYNAMIC_CRT)
     + of_bool (regex_search output RELEASE_STATIC_CRT) + of_bool (regex_search output RELEASE_DYNAMIC_CRT)"

text \<open>The body of the loop from the four searches on (lines 526-563): \<open>lib\<close> is pushed on
  one of the six vectors.\<close>

definition classify_lib :: "string \<Rightarrow> path \<Rightarrow> crt_groups \<Rightarrow> crt_groups" where
  "classify_lib output lib g =
     (let found_debug_static_crt = regex_search output DEBUG_STATIC_CRT;
          found_debug_dynamic_crt = regex_search output DEBUG_DYNAMIC_CRT;
          found_release_static_crt = regex_search output RELEASE_STATIC_CRT
      in
      if crts_found_count output = 0
      then g\<lparr>libs_with_no_crts := libs_with_no_crts g @ [lib]\<rparr>
      else if crts_found_count output > 1
      then g\<lparr>libs_with_multiple_crts := libs_with_multiple_crts g @ [lib]\<rparr>
      else if found_debug_static_crt
      then g\<lparr>libs_with_debug_static_crt := libs_with_debug_static_crt g @ [lib]\<rparr>
      else if found_debug_dynamic_crt
      then g\<lparr>libs_with_debug_dynamic_crt := libs_with_debug_dynamic_crt g @ [lib]\<rparr>
      else if found_release_static_crt
      then g\<lparr>libs_with_release_static_crt := libs_with_release_static_crt g @ [lib]\<rparr>
      else g\<lparr>libs_with_release_dynamic_crt := libs_with_release_dynamic_crt g @ [lib]\<rparr>)"

fun crt_loop :: "environment \<Rightarrow> path list \<Rightarrow> crt_groups \<Rightarrow> string + crt_groups" where
  "crt_loop env [] g = Inr g"
| "crt_loop env (lib # libs) g =
     (let cmd_line = dumpbin_cmd_line ''/directives'' lib;
          ec_data = cmd_execute_and_capture_output env cmd_line
      in
      if fst ec_data \<noteq> 0 then Inl (command_failed cmd_line)
      else crt_loop env libs (classify_lib (snd ec_data) lib g))"

text \<open>The loop over \<open>group_for_iteration\<close> (lines 584-592); \<open>toString\<close> of \<open>BuildType\<close> is
  declared outside this file and is a parameter.\<close>

definition report_group ::
  "(BuildType \<Rightarrow> string) \<Rightarrow> BuildType \<Rightarrow> BuildType \<times> path list \<Rightarrow> check_result" where
  "report_group toString expected_build_type bif =
     (if snd bif \<noteq> [] \<and> fst bif \<noteq> expected_build_type
      then ([(warning, ''Expected '' @ toString expected_build_type
                       @ '' crt linkage, but the following libs had '' @ toString (fst bif) @ '' crt linkage:'')]
            @ print_vector_of_files (snd bif),
            ERROR_DETECTED)
      else ([], SUCCESS))"

definition check_crt_linkage_of_libs ::
  "environment \<Rightarrow> (BuildType \<Rightarrow> string) \<Rightarrow> BuildType \<Rightarrow> path list \<Rightarrow> fallible_check_result" where
  "check_crt_linkage_of_libs env toString expected_build_type libs =
     (case crt_loop env libs no_libs of
        Inl msg \<Rightarrow> Inl msg
      | Inr g \<Rightarrow>
          let r1 = (if libs_with_no_crts g \<noteq> []
                    then ([(warning, ''Could not detect the crt linkage in the following libs:'')]
                          @ print_vector_of_files (libs_with_no_crts g), ERROR_DETECTED)
                    else ([], SUCCESS));
              r2 = (if libs_with_multiple_crts g \<noteq> []
                    then ([(warning, ''Detected multiple crt linkages for the following libs:'')]
                          @ print_vector_of_files (libs_with_multiple_crts g), ERROR_DETECTED)
                    else ([], SUCCESS));
              group_for_iteration =
                [(DEBUG_STATIC, libs_with_debug_static_crt g), (DEBUG_DYNAMIC, libs_with_debug_dynamic_crt g),
                 (RELEASE_STATIC, libs_with_release_static_crt g),
                 (RELEASE_DYNAMIC, libs_with_release_dynamic_crt g)];
              rs = [r1, r2] @ map (report_group toString expected_build_type) group_for_iteration;
              output_status = (if ERROR_DETECTED \<in> set (map snd rs) then ERROR_DETECTED else SUCCESS)
          in
          Inr (concat (map fst rs)
               @ (if output_status = ERROR_DETECTED
                  then [(warning, ''To inspect the lib files, use:'' @ [newline]
                                  @ ''    dumpbin.exe /directives mylibfile.lib'')]
                  else []),
               output_status))"

subsection \<open>The orchestrator (lines 602-691)\<close>

text \<open>The \<open>BuildInfo\<close> that line 611 reads from the package is an input of the run.
  \<open>LinkageType\<close> is declared in BuildInfo.h; the switch names its three enumerators, and its
  default branch (\<open>Checks::unreachable\<close>) stands for no value of the type.\<close>

datatype LinkageType = DYNAMIC | STATIC | UNKNOWN

text \<open>Modelled from the spec: \<open>linkage_type_value_of\<close> is declared in BuildInfo.h, outside
  post\_build\_lint.cpp. The build metadata declares \<open>library_linkage\<close> as static,
  dynamic or something unrecognized.\<close>

definition linkage_type_value_of :: "string \<Rightarrow> LinkageType" where
  "linkage_type_value_of as_string =
     (if as_string = ''static'' then STATIC
      else if as_string = ''dynamic'' then DYNAMIC
      else UNKNOWN)"

text \<open>The state of a run between two checks: what has been printed, and \<open>error_count\<close>.\<close>

type_synonym lint_state = "printed list \<times> nat"

text \<open>\<open>error_count += check(...)\<close> (lines 602-605) for a check that always returns.\<close>

definition add_status :: "lint_state \<Rightarrow> check_result \<Rightarrow> lint_state" where
  "add_status st r = (fst st @ fst r, snd st + status_value (snd r))"

text \<open>The same for a check that may end the run through \<open>Checks::check_exit\<close>: what was
  printed before stays printed, and no later statement is executed.\<close>

definition add_fallible_status ::
  "lint_state \<Rightarrow> fallible_check_result \<Rightarrow> (printed list \<times> string) + lint_state" where
  "add_fallible_status st r =
     (case r of Inl msg \<Rightarrow> Inl (fst st, msg) | Inr c \<Rightarrow> Inr (add_status st c))"

text \<open>The switch on the linkage of the library (lines 635-675). The calls between
  \<open>#if 0\<close> and \<open>#endif\<close> are not compiled.\<close>

definition linkage_checks ::
  "environment \<Rightarrow> package_spec \<Rightarrow> vcpkg_paths \<Rightarrow> BuildInfo \<Rightarrow> lint_state
   \<Rightarrow> (printed list \<times> string) + lint_state" where
  "linkage_checks env spec paths build_info st =
     (case linkage_type_value_of (library_linkage build_info) of
        DYNAMIC \<Rightarrow>
          let debug_dlls = recursive_find_files_with_extension_in_dir (filesystem env)
                (packages paths @ [spec_dir spec] @ [''debug''] @ [''bin'']) ''.dll'';
              release_dlls = recursive_find_files_with_extension_in_dir (filesystem env)
                (packages paths @ [spec_dir spec] @ [''bin'']) ''.dll'';
              st1 = add_status st (check_matching_debug_and_release_binaries debug_dlls release_dlls);
              dlls = debug_dlls @ release_dlls
          in
          (case add_fallible_status st1 (check_exports_of_dlls env dlls) of
             Inl e \<Rightarrow> Inl e
           | Inr st2 \<Rightarrow>
               (case add_fallible_status st2 (check_uwp_bit_of_dlls env (target_system spec) dlls) of
                  Inl e \<Rightarrow> Inl e
                | Inr st3 \<Rightarrow>
                    add_fallible_status st3 (check_dll_architecture env (target_architecture spec) dlls)))
      | STATIC \<Rightarrow>
          let dlls = recursive_find_files_with_extension_in_dir (filesystem env)
                (packages paths @ [spec_dir spec]) ''.dll'';
              st1 = add_status st (check_no_dlls_present dlls)
          in Inr (add_status st1 (check_bin_folders_are_not_present_in_static_build env spec paths))
      | UNKNOWN \<Rightarrow>
          Inr (fst st @ [(warning, ''Unknown library_linkage architecture: [ '' @ library_linkage build_info @ '' ]'')],
               snd st + 1))"

text \<open>How a run ends: \<open>perform_all_checks\<close> returns, or it calls \<open>exit(EXIT_FAILURE)\<close>
  after the count of errors (line 687), or a \<open>Checks::check_exit\<close> inside a check fails.\<close>

datatype run_end = returned | exit_failure | check_exit_failed string

definition perform_all_checks ::
  "environment \<Rightarrow> package_spec \<Rightarrow> vcpkg_paths \<Rightarrow> BuildInfo \<Rightarrow> printed list \<times> run_end" where
  "perform_all_checks env spec paths build_info =
     (let st0 = ([(no_color, ''-- Performing post-build validation'')], 0);
          st1 = add_status st0 (check_for_files_in_include_directory env spec paths);
          st2 = add_status st1 (check_for_files_in_debug_include_directory env spec paths);
          st3 = add_status st2 (check_for_files_in_debug_share_directory env spec paths);
          st4 = add_status st3 (check_folder_lib_cmake env spec paths);
          st5 = add_status st4 (check_for_misplaced_cmake_files env spec paths);
          st6 = add_status st5 (check_folder_debug_lib_cmake env spec paths);
          st7 = add_status st6 (check_for_dlls_in_lib_dirs env spec paths);
          st8 = add_status st7 (check_for_copyright_file env spec paths);
          st9 = add_status st8 (check_for_exes env spec paths);
          debug_libs = recursive_find_files_with_extension_in_dir (filesystem env)
            (packages paths @ [spec_dir spec] @ [''debug''] @ [''lib'']) ''.lib'';
          release_libs = recursive_find_files_with_extension_in_dir (filesystem env)
            (packages paths @ [spec_dir spec] @ [''lib'']) ''.lib'';
          st10 = add_status st9 (check_matching_debug_and_release_binaries debug_libs release_libs);
          libs = debug_libs @ release_libs
      in
      case add_fallible_status st10 (check_lib_architecture env (target_architecture spec) libs) of
        Inl e \<Rightarrow> (fst e, check_exit_failed (snd e))
      | Inr st11 \<Rightarrow>
          (case linkage_checks env spec paths build_info st11 of
             Inl e \<Rightarrow> (fst e, check_exit_failed (snd e))
           | Inr st12 \<Rightarrow>
               let st13 = add_status st12 (check_no_empty_folders env (packages paths @ [spec_dir spec]));
                   error_count = snd st13
               in
               if error_count \<noteq> 0
               then
                 let portfile = ports paths @ [spec_name spec] @ [''portfile.cmake'']
                 in (fst st13 @ [(error, ''Found '' @ to_string error_count
                                         @ '' error(s). Please correct the portfile:'' @ [newline]
                                         @ ''    '' @ native portfile)],
                     exit_failure)
               else (fst st13 @ [(no_color, ''-- Performing post-build validation done'')], returned)))"

subsection \<open>Definitions used to state the properties\<close>

text \<open>The value of a string of decimal digits.\<close>

definition decimal_value :: "string \<Rightarrow> nat" where
  "decimal_value s = foldl (\<lambda>acc ch. 10 * acc + (of_char ch - 48)) 0 s"

text \<open>The machine types of the PE/COFF format, as an instance of the parameter.\<close>

definition pe_codes :: MachineType_codes where
  "pe_codes = \<lparr>AMD64 = 0x8664, IA64 = 0x200, I386 = 0x14c, ARM = 0x1c0, ARMNT = 0x1c4\<rparr>"

text \<open>A filesystem in which the entries of every directory have distinct names.\<close>

fun distinct_names :: "node \<Rightarrow> bool"
  and distinct_names_children :: "(string \<times> node) list \<Rightarrow> bool"
where
  "distinct_names (File sz) = True"
| "distinct_names (Dir es) = (distinct (map fst es) \<and> distinct_names_children es)"
| "distinct_names_children [] = True"
| "distinct_names_children ((n, c) # es) = (distinct_names c \<and> distinct_names_children es)"

text \<open>A package, its paths and an environment for examples: every command succeeds and
  prints the heading of an export table, every DLL is built for x86.\<close>

definition example_spec :: package_spec where
  "example_spec = \<lparr>spec_name = ''zlib'', spec_dir = ''zlib_x86-windows'',
                    target_architecture = ''x86'', target_system = ''windows''\<rparr>"

definition example_paths :: vcpkg_paths where
  "example_paths = \<lparr>packages = [''packages''], buildtrees = [''buildtrees''], ports = [''ports'']\<rparr>"

definition example_env :: "(string \<times> node) list \<Rightarrow> (path \<Rightarrow> MachineType list) \<Rightarrow> environment" where
  "example_env package_entries coff_machine_types =
     \<lparr>filesystem = Dir [(''packages'', Dir [(''zlib_x86-windows'', Dir package_entries)])],
      cmd_execute_and_capture_output = (\<lambda>cmd_line. (0, ''    ordinal hint RVA      name'')),
      read_dll = (\<lambda>file. 0x14c),
      read_lib = coff_machine_types,
      machine_types = pe_codes\<rparr>"

definition complete_package :: "(string \<times> node) list" where
  "complete_package =
     [(''include'', Dir [(''zlib.h'', File 100)]),
      (''share'', Dir [(''zlib'', Dir [(''copyright'', File 10)])]),
      (''bin'', Dir [(''zlib.dll'', File 1000)]),
      (''lib'', Dir [(''zlib.lib'', File 500)]),
      (''debug'', Dir [(''bin'', Dir [(''zlibd.dll'', File 1000)]),
                      (''lib'', Dir [(''zlibd.lib'', File 500)])])]"

text \<open>The battery of checks of a run, in the order in which \<open>perform_all_checks\<close> calls
  them: the checks before the switch on the linkage, the checks of the linkage (for an
  unrecognized linkage the violation itself, as a check that always fails), the check for
  empty folders. Each one is stated on its own, independent of the results of the others.\<close>

definition checks_before_linkage ::
  "environment \<Rightarrow> package_spec \<Rightarrow> vcpkg_paths \<Rightarrow> fallible_check_result list" where
  "checks_before_linkage env spec paths =
     (let debug_libs = recursive_find_files_with_extension_in_dir (filesystem env)
            (packages paths @ [spec_dir spec] @ [''debug''] @ [''lib'']) ''.lib'';
          release_libs = recursive_find_files_with_extension_in_dir (filesystem env)
            (packages paths @ [spec_dir spec] @ [''lib'']) ''.lib''
      in
      [Inr (check_for_files_in_include_directory env spec paths),
       Inr (check_for_files_in_debug_include_directory env spec paths),
       Inr (check_for_files_in_debug_share_directory env spec paths),
       Inr (check_folder_lib_cmake env spec paths),
       Inr (check_for_misplaced_cmake_files env spec paths),
       Inr (check_folder_debug_lib_cmake env spec paths),
       Inr (check_for_dlls_in_lib_dirs env spec paths),
       Inr (check_for_copyright_file env spec paths),
       Inr (check_for_exes env spec paths),
       Inr (check_matching_debug_and_release_binaries debug_libs release_libs),
       check_lib_architecture env (target_architecture spec) (debug_libs @ release_libs)])"

definition checks_of_linkage ::
  "environment \<Rightarrow> package_spec \<Rightarrow> vcpkg_paths \<Rightarrow> BuildInfo \<Rightarrow> fallible_check_result list" where
  "checks_of_linkage env spec paths build_info =
     (case linkage_type_value_of (library_linkage build_info) of
        DYNAMIC \<Rightarrow>
          let debug_dlls = recursive_find_files_with_extension_in_dir (filesystem env)
                (packages paths @ [spec_dir spec] @ [''debug''] @ [''bin'']) ''.dll'';
              release_dlls = recursive_find_files_with_extension_in_dir (filesystem env)
                (packages paths @ [spec_dir spec] @ [''bin'']) ''.dll''
          in
          [Inr (check_matching_debug_and_release_binaries debug_dlls release_dlls),
           check_exports_of_dlls env (debug_dlls @ release_dlls),
           check_uwp_bit_of_dlls env (target_system spec) (debug_dlls @ release_dlls),
           check_dll_architecture env (target_architecture spec) (debug_dlls @ release_dlls)]
      | STATIC \<Rightarrow>
          [Inr (check_no_dlls_present
                  (recursive_find_files_with_extension_in_dir (filesystem env)
                     (packages paths @ [spec_dir spec]) ''.dll'')),
           Inr (check_bin_folders_are_not_present_in_static_build env spec paths)]
      | UNKNOWN \<Rightarrow>
          [Inr ([(warning, ''Unknown library_linkage architecture: [ '' @ library_linkage build_info @ '' ]'')],
                ERROR_DETECTED)])"

definition battery ::
  "environment \<Rightarrow> package_spec \<Rightarrow> vcpkg_paths \<Rightarrow> BuildInfo \<Rightarrow> fallible_check_result list" where
  "battery env spec paths build_info =
     checks_before_linkage env spec paths
     @ checks_of_linkage env spec paths build_info
     @ [Inr (check_no_empty_folders env (packages paths @ [spec_dir spec]))]"

text \<open>The explicit accumulator over a list of results: one unit for each violation, and
  the end of the run at the first failed \<open>Checks::check_exit\<close>.\<close>

fun accumulate :: "fallible_check_result list \<Rightarrow> lint_state \<Rightarrow> (printed list \<times> string) + lint_state" where
  "accumulate [] st = Inr st"
| "accumulate (r # rs) st =
     (case add_fallible_status st r of Inl e \<Rightarrow> Inl e | Inr st' \<Rightarrow> accumulate rs st')"

text \<open>The end of \<open>perform_all_checks\<close> (lines 683-690) as a function of the accumulated
  state.\<close>

definition finish :: "package_spec \<Rightarrow> vcpkg_paths \<Rightarrow> (printed list \<times> string) + lint_state \<Rightarrow> printed list \<times> run_end" where
  "finish spec paths r =
     (case r of
        Inl e \<Rightarrow> (fst e, check_exit_failed (snd e))
      | Inr st \<Rightarrow>
          if snd st \<noteq> 0
          then (fst st @ [(error, ''Found '' @ to_string (snd st)
                                  @ '' error(s). Please correct the portfile:'' @ [newline]
                                  @ ''    '' @ native (ports paths @ [spec_name spec] @ [''portfile.cmake'']))],
                exit_failure)
          else (fst st @ [(no_color, ''-- Performing post-build validation done'')], returned))"


section \<open>Properties\<close>

subsection \<open>Decimal output\<close>

lemma digit_char_value: "d < 10 \<Longrightarrow> of_char (digit_char d) = (48::nat) + d"
proof -
  assume "d < 10"
  then have "d \<in> {0, 1, 2, 3, 4, 5, 6, 7, 8, 9}" by auto
  then show ?thesis by (auto simp: digit_char_def)
qed

lemma decimal_value_to_string: "decimal_value (to_string n) = n"
proof (induction n rule: to_string.induct)
  case (1 n)
  show ?case
  proof (cases "n < 10")
    case True
    then show ?thesis
      by (subst to_string.simps) (simp add: decimal_value_def digit_char_value)
  next
    case False
    with 1 have IH: "decimal_value (to_string (n div 10)) = n div 10" by simp
    have "n mod 10 < 10" by simp
    then have d: "of_char (digit_char (n mod 10)) = (48::nat) + n mod 10"
      by (rule digit_char_value)
    have "decimal_value (to_string n) = 10 * decimal_value (to_string (n div 10)) + n mod 10"
      using False by (subst to_string.simps) (simp add: decimal_value_def d)
    with IH show ?thesis by simp
  qed
qed

subsection \<open>Searching a text\<close>

text \<open>The searches of the source in terms of decompositions of the text.\<close>

lemma starts_with_iff: "starts_with s m \<longleftrightarrow> (\<exists>r. s = m @ r)"
  by (induction s m rule: starts_with.induct) auto

lemma string_find_iff: "string_find s m \<longleftrightarrow> (\<exists>p r. s = p @ m @ r)"
proof (induction s)
  case Nil
  then show ?case by auto
next
  case (Cons c cs)
  show ?case
  proof
    assume "string_find (c # cs) m"
    then consider "starts_with (c # cs) m" | "string_find cs m" by auto
    then show "\<exists>p r. c # cs = p @ m @ r"
    proof cases
      case 1
      then obtain r where "c # cs = m @ r" by (auto simp: starts_with_iff)
      then have "c # cs = [] @ m @ r" by simp
      then show ?thesis by blast
    next
      case 2
      with Cons obtain p r where "cs = p @ m @ r" by auto
      then have "c # cs = (c # p) @ m @ r" by simp
      then show ?thesis by blast
    qed
  next
    assume "\<exists>p r. c # cs = p @ m @ r"
    then obtain p r where pr: "c # cs = p @ m @ r" by auto
    show "string_find (c # cs) m"
    proof (cases p)
      case Nil
      with pr have "starts_with (c # cs) m" by (auto simp: starts_with_iff)
      then show ?thesis by simp
    next
      case (Cons a p')
      with pr have "cs = p' @ m @ r" by simp
      with Cons.IH have "string_find cs m" by auto
      then show ?thesis by simp
    qed
  qed
qed

lemma match_here_Lit: "match_here (map Lit m) s \<longleftrightarrow> (\<exists>r. s = m @ r)"
proof (induction m arbitrary: s)
  case Nil
  then show ?case by simp
next
  case (Cons a m)
  then show ?case by (cases s) auto
qed

lemma match_here_Lit_NotChar:
  "match_here (map Lit m @ [NotChar d]) s \<longleftrightarrow> (\<exists>c r. s = m @ c # r \<and> c \<noteq> d)"
proof (induction m arbitrary: s)
  case Nil
  show ?case by (cases s) auto
next
  case (Cons a m)
  then show ?case by (cases s) auto
qed

lemma regex_search_iff: "regex_search s re \<longleftrightarrow> (\<exists>p r. s = p @ r \<and> match_here re r)"
proof (induction s)
  case Nil
  then show ?case by simp
next
  case (Cons c cs)
  show ?case
  proof
    assume "regex_search (c # cs) re"
    then consider "match_here re (c # cs)" | "regex_search cs re" by auto
    then show "\<exists>p r. c # cs = p @ r \<and> match_here re r"
    proof cases
      case 1
      then have "c # cs = [] @ (c # cs) \<and> match_here re (c # cs)" by simp
      then show ?thesis by blast
    next
      case 2
      with Cons obtain p r where "cs = p @ r" "match_here re r" by auto
      then have "c # cs = (c # p) @ r \<and> match_here re r" by simp
      then show ?thesis by blast
    qed
  next
    assume "\<exists>p r. c # cs = p @ r \<and> match_here re r"
    then obtain p r where pr: "c # cs = p @ r" "match_here re r" by auto
    show "regex_search (c # cs) re"
    proof (cases p)
      case Nil
      with pr show ?thesis by auto
    next
      case (Cons a p')
      with pr have "cs = p' @ r" by simp
      with pr Cons.IH have "regex_search cs re" by auto
      then show ?thesis by simp
    qed
  qed
qed

lemma found_debug_static_iff:
  "regex_search s DEBUG_STATIC_CRT \<longleftrightarrow> (\<exists>p q. s = p @ ''/DEFAULTLIB:LIBCMTD'' @ q)"
  unfolding DEBUG_STATIC_CRT_def regex_search_iff match_here_Lit by blast

lemma found_debug_dynamic_iff:
  "regex_search s DEBUG_DYNAMIC_CRT \<longleftrightarrow> (\<exists>p q. s = p @ ''/DEFAULTLIB:MSVCRTD'' @ q)"
  unfolding DEBUG_DYNAMIC_CRT_def regex_search_iff match_here_Lit by blast

lemma found_release_static_iff:
  "regex_search s RELEASE_STATIC_CRT \<longleftrightarrow> (\<exists>p c q. s = p @ ''/DEFAULTLIB:LIBCMT'' @ c # q \<and> c \<noteq> CHR ''D'')"
  unfolding RELEASE_STATIC_CRT_def regex_search_iff match_here_Lit_NotChar by blast

lemma found_release_dynamic_iff:
  "regex_search s RELEASE_DYNAMIC_CRT \<longleftrightarrow> (\<exists>p c q. s = p @ ''/DEFAULTLIB:MSVCRT'' @ c # q \<and> c \<noteq> CHR ''D'')"
  unfolding RELEASE_DYNAMIC_CRT_def regex_search_iff match_here_Lit_NotChar by blast

lemma all_occurrences_iff:
  "(\<forall>p q. s = p @ m @ q \<longrightarrow> P p q) \<longleftrightarrow>
   list_all (\<lambda>i. starts_with (drop i s) m \<longrightarrow> P (take i s) (drop (i + length m) s)) [0..<Suc (length s)]"
proof
  assume L: "\<forall>p q. s = p @ m @ q \<longrightarrow> P p q"
  show "list_all (\<lambda>i. starts_with (drop i s) m \<longrightarrow> P (take i s) (drop (i + length m) s)) [0..<Suc (length s)]"
    unfolding list_all_iff
  proof (intro ballI impI)
    fix i assume "i \<in> set [0..<Suc (length s)]" and sw: "starts_with (drop i s) m"
    from sw obtain r where r: "drop i s = m @ r" by (auto simp: starts_with_iff)
    have "s = take i s @ drop i s" by simp
    with r have s: "s = take i s @ m @ r" by simp
    have "drop (i + length m) s = drop (length m) (drop i s)" by (simp add: add.commute)
    with r have "drop (i + length m) s = r" by simp
    with L s show "P (take i s) (drop (i + length m) s)" by auto
  qed
next
  assume R: "list_all (\<lambda>i. starts_with (drop i s) m \<longrightarrow> P (take i s) (drop (i + length m) s)) [0..<Suc (length s)]"
  show "\<forall>p q. s = p @ m @ q \<longrightarrow> P p q"
  proof (intro allI impI)
    fix p q assume s: "s = p @ m @ q"
    then have "length p \<in> set [0..<Suc (length s)]" by simp
    with R have "starts_with (drop (length p) s) m \<longrightarrow> P (take (length p) s) (drop (length p + length m) s)"
      unfolding list_all_iff by blast
    moreover have "starts_with (drop (length p) s) m" using s by (auto simp: starts_with_iff)
    moreover have "take (length p) s = p" using s by simp
    moreover have "drop (length p + length m) s = q" using s by (simp add: add.commute)
    ultimately show "P p q" by simp
  qed
qed

lemmas crt_regex_defs =
  DEBUG_STATIC_CRT_def DEBUG_DYNAMIC_CRT_def RELEASE_STATIC_CRT_def RELEASE_DYNAMIC_CRT_def

lemma crts_found_count_filter:
  "crts_found_count text =
     length (filter (regex_search text) [DEBUG_STATIC_CRT, DEBUG_DYNAMIC_CRT, RELEASE_STATIC_CRT, RELEASE_DYNAMIC_CRT])"
  by (simp add: crts_found_count_def)

subsection \<open>The classification of a library by its directives\<close>

text \<open>
  C1. For every directive text, \<open>crts_found_count\<close> is the number of the four expressions
  (debug static, debug dynamic, release static, release dynamic) that are found in it, and
  the loop body \<open>classify_lib\<close> decides by this count alone between three cases that cover
  every text: with count 0 the library goes to \<open>libs_with_no_crts\<close> (linkage not detected),
  with count 2 or more to \<open>libs_with_multiple_crts\<close> (ambiguous), and with count 1 to the
  vector of the one expression found. In particular a text that contains
  \<open>/DEFAULTLIB:LIBCMTD\<close> and also \<open>/DEFAULTLIB:MSVCRT\<close> followed by a character other than
  \<open>D\<close> goes to \<open>libs_with_multiple_crts\<close>.
\<close>

theorem classify_lib_three_way:
  "crts_found_count text =
     length (filter (regex_search text) [DEBUG_STATIC_CRT, DEBUG_DYNAMIC_CRT, RELEASE_STATIC_CRT, RELEASE_DYNAMIC_CRT])
   \<and> (crts_found_count text = 0 \<longrightarrow>
        classify_lib text lib g = g\<lparr>libs_with_no_crts := libs_with_no_crts g @ [lib]\<rparr>)
   \<and> (crts_found_count text \<ge> 2 \<longrightarrow>
        classify_lib text lib g = g\<lparr>libs_with_multiple_crts := libs_with_multiple_crts g @ [lib]\<rparr>)
   \<and> (crts_found_count text = 1 \<longrightarrow>
        (regex_search text DEBUG_STATIC_CRT \<longrightarrow>
           classify_lib text lib g = g\<lparr>libs_with_debug_static_crt := libs_with_debug_static_crt g @ [lib]\<rparr>)
        \<and> (regex_search text DEBUG_DYNAMIC_CRT \<longrightarrow>
           classify_lib text lib g = g\<lparr>libs_with_debug_dynamic_crt := libs_with_debug_dynamic_crt g @ [lib]\<rparr>)
        \<and> (regex_search text RELEASE_STATIC_CRT \<longrightarrow>
           classify_lib text lib g = g\<lparr>libs_with_release_static_crt := libs_with_release_static_crt g @ [lib]\<rparr>)
        \<and> (regex_search text RELEASE_DYNAMIC_CRT \<longrightarrow>
           classify_lib text lib g = g\<lparr>libs_with_release_dynamic_crt := libs_with_release_dynamic_crt g @ [lib]\<rparr>))
   \<and> ((\<exists>p q. text = p @ ''/DEFAULTLIB:LIBCMTD'' @ q)
        \<and> (\<exists>p c q. text = p @ ''/DEFAULTLIB:MSVCRT'' @ c # q \<and> c \<noteq> CHR ''D'') \<longrightarrow>
        classify_lib text lib g = g\<lparr>libs_with_multiple_crts := libs_with_multiple_crts g @ [lib]\<rparr>)"
proof (intro conjI impI)
  show "crts_found_count text =
     length (filter (regex_search text) [DEBUG_STATIC_CRT, DEBUG_DYNAMIC_CRT, RELEASE_STATIC_CRT, RELEASE_DYNAMIC_CRT])"
    by (rule crts_found_count_filter)
next
  assume "crts_found_count text = 0"
  then show "classify_lib text lib g = g\<lparr>libs_with_no_crts := libs_with_no_crts g @ [lib]\<rparr>"
    by (simp add: classify_lib_def)
next
  assume "2 \<le> crts_found_count text"
  then show "classify_lib text lib g = g\<lparr>libs_with_multiple_crts := libs_with_multiple_crts g @ [lib]\<rparr>"
    by (simp add: classify_lib_def)
next
  assume "crts_found_count text = 1" "regex_search text DEBUG_STATIC_CRT"
  then show "classify_lib text lib g = g\<lparr>libs_with_debug_static_crt := libs_with_debug_static_crt g @ [lib]\<rparr>"
    by (simp add: classify_lib_def)
next
  assume a: "crts_found_count text = 1" "regex_search text DEBUG_DYNAMIC_CRT"
  then have "\<not> regex_search text DEBUG_STATIC_CRT"
    by (auto simp: crts_found_count_def)
  with a show "classify_lib text lib g = g\<lparr>libs_with_debug_dynamic_crt := libs_with_debug_dynamic_crt g @ [lib]\<rparr>"
    by (simp add: classify_lib_def)
next
  assume a: "crts_found_count text = 1" "regex_search text RELEASE_STATIC_CRT"
  then have "\<not> regex_search text DEBUG_STATIC_CRT" "\<not> regex_search text DEBUG_DYNAMIC_CRT"
    by (auto simp: crts_found_count_def)
  with a show "classify_lib text lib g = g\<lparr>libs_with_release_static_crt := libs_with_release_static_crt g @ [lib]\<rparr>"
    by (simp add: classify_lib_def)
next
  assume a: "crts_found_count text = 1" "regex_search text RELEASE_DYNAMIC_CRT"
  then have "\<not> regex_search text DEBUG_STATIC_CRT" "\<not> regex_search text DEBUG_DYNAMIC_CRT"
    "\<not> regex_search text RELEASE_STATIC_CRT"
    by (auto simp: crts_found_count_def)
  with a show "classify_lib text lib g = g\<lparr>libs_with_release_dynamic_crt := libs_with_release_dynamic_crt g @ [lib]\<rparr>"
    by (simp add: classify_lib_def)
next
  assume "(\<exists>p q. text = p @ ''/DEFAULTLIB:LIBCMTD'' @ q)
        \<and> (\<exists>p c q. text = p @ ''/DEFAULTLIB:MSVCRT'' @ c # q \<and> c \<noteq> CHR ''D'')"
  then have "regex_search text DEBUG_STATIC_CRT" "regex_search text RELEASE_DYNAMIC_CRT"
    unfolding found_debug_static_iff found_release_dynamic_iff by blast+
  then have "crts_found_count text \<ge> 2" by (simp add: crts_found_count_def)
  then show "classify_lib text lib g = g\<lparr>libs_with_multiple_crts := libs_with_multiple_crts g @ [lib]\<rparr>"
    by (simp add: classify_lib_def)
qed

theorem classify_lib_three_way_witness:
  "crts_found_count ''/DEFAULTLIB:LIBCMTD /DEFAULTLIB:MSVCRT '' = 2
   \<and> classify_lib ''/DEFAULTLIB:LIBCMTD /DEFAULTLIB:MSVCRT '' [''lib'', ''a.lib''] no_libs
       = no_libs\<lparr>libs_with_multiple_crts := [[''lib'', ''a.lib'']]\<rparr>
   \<and> crts_found_count ''no directive'' = 0
   \<and> classify_lib ''no directive'' [''lib'', ''a.lib''] no_libs
       = no_libs\<lparr>libs_with_no_crts := [[''lib'', ''a.lib'']]\<rparr>
   \<and> crts_found_count ''   /DEFAULTLIB:MSVCRT /DEFAULTLIB:OLDNAMES'' = 1
   \<and> classify_lib ''   /DEFAULTLIB:MSVCRT /DEFAULTLIB:OLDNAMES'' [''lib'', ''a.lib''] no_libs
       = no_libs\<lparr>libs_with_release_dynamic_crt := [[''lib'', ''a.lib'']]\<rparr>"
proof -
  have c2: "crts_found_count ''/DEFAULTLIB:LIBCMTD /DEFAULTLIB:MSVCRT '' = 2"
    by (simp add: crts_found_count_def crt_regex_defs)
  have c0: "crts_found_count ''no directive'' = 0"
    by (simp add: crts_found_count_def crt_regex_defs)
  have c1: "crts_found_count ''   /DEFAULTLIB:MSVCRT /DEFAULTLIB:OLDNAMES'' = 1"
    by (simp add: crts_found_count_def crt_regex_defs)
  have f: "regex_search ''   /DEFAULTLIB:MSVCRT /DEFAULTLIB:OLDNAMES'' RELEASE_DYNAMIC_CRT"
    by (simp add: crt_regex_defs)
  have e1: "\<exists>p q. ''/DEFAULTLIB:LIBCMTD /DEFAULTLIB:MSVCRT '' = p @ ''/DEFAULTLIB:LIBCMTD'' @ q"
    by (rule exI [of _ "[]"], rule exI [of _ "'' /DEFAULTLIB:MSVCRT ''"]) simp
  have e2: "\<exists>p c q. ''/DEFAULTLIB:LIBCMTD /DEFAULTLIB:MSVCRT '' = p @ ''/DEFAULTLIB:MSVCRT'' @ c # q \<and> c \<noteq> CHR ''D''"
    by (rule exI [of _ "''/DEFAULTLIB:LIBCMTD ''"], rule exI [of _ "CHR '' ''"], rule exI [of _ "[]"]) simp
  have m: "classify_lib ''/DEFAULTLIB:LIBCMTD /DEFAULTLIB:MSVCRT '' [''lib'', ''a.lib''] no_libs
       = no_libs\<lparr>libs_with_multiple_crts := libs_with_multiple_crts no_libs @ [[''lib'', ''a.lib'']]\<rparr>"
    using classify_lib_three_way [of "''/DEFAULTLIB:LIBCMTD /DEFAULTLIB:MSVCRT ''" "[''lib'', ''a.lib'']" no_libs,
        THEN conjunct2, THEN conjunct2, THEN conjunct2, THEN conjunct2, THEN mp, OF conjI [OF e1 e2]] .
  have z: "classify_lib ''no directive'' [''lib'', ''a.lib''] no_libs
       = no_libs\<lparr>libs_with_no_crts := libs_with_no_crts no_libs @ [[''lib'', ''a.lib'']]\<rparr>"
    using classify_lib_three_way [of "''no directive''" "[''lib'', ''a.lib'']" no_libs,
        THEN conjunct2, THEN conjunct1, THEN mp, OF c0] .
  have r: "classify_lib ''   /DEFAULTLIB:MSVCRT /DEFAULTLIB:OLDNAMES'' [''lib'', ''a.lib''] no_libs
       = no_libs\<lparr>libs_with_release_dynamic_crt := libs_with_release_dynamic_crt no_libs @ [[''lib'', ''a.lib'']]\<rparr>"
    using classify_lib_three_way [of "''   /DEFAULTLIB:MSVCRT /DEFAULTLIB:OLDNAMES''" "[''lib'', ''a.lib'']" no_libs,
        THEN conjunct2, THEN conjunct2, THEN conjunct2, THEN conjunct1, THEN mp, OF c1,
        THEN conjunct2, THEN conjunct2, THEN conjunct2, THEN mp, OF f] .
  have l: "libs_with_multiple_crts no_libs = []" "libs_with_no_crts no_libs = []"
    "libs_with_release_dynamic_crt no_libs = []"
    by (simp_all add: no_libs_def)
  show ?thesis
    unfolding c2 c0 c1 m z r l by simp
qed

text \<open>
  C2. If every occurrence of \<open>LIBCMT\<close> in a text lies inside an occurrence of the debug
  static marker \<open>/DEFAULTLIB:LIBCMTD\<close>, the release static expression is not found in it.
  If moreover the text contains that marker and no \<open>/DEFAULTLIB:MSVCRT\<close>, the count is 1 and
  the library goes to \<open>libs_with_debug_static_crt\<close>, not to the release static or the
  ambiguous vector.
\<close>

theorem release_static_not_detected_in_debug_static:
  assumes "\<forall>p q. text = p @ ''LIBCMT'' @ q \<longrightarrow> (\<exists>p' q'. p = p' @ ''/DEFAULTLIB:'' \<and> q = CHR ''D'' # q')"
  shows "\<not> regex_search text RELEASE_STATIC_CRT
       \<and> ((\<exists>p q. text = p @ ''/DEFAULTLIB:LIBCMTD'' @ q) \<and> (\<nexists>p q. text = p @ ''/DEFAULTLIB:MSVCRT'' @ q) \<longrightarrow>
            crts_found_count text = 1
            \<and> classify_lib text lib g = g\<lparr>libs_with_debug_static_crt := libs_with_debug_static_crt g @ [lib]\<rparr>)"
proof (intro conjI impI)
  show nrs: "\<not> regex_search text RELEASE_STATIC_CRT"
  proof
    assume "regex_search text RELEASE_STATIC_CRT"
    then obtain p c q where t: "text = p @ ''/DEFAULTLIB:LIBCMT'' @ c # q" and c: "c \<noteq> CHR ''D''"
      unfolding found_release_static_iff by blast
    from t have "text = (p @ ''/DEFAULTLIB:'') @ ''LIBCMT'' @ (c # q)" by simp
    with assms obtain q' where "c # q = CHR ''D'' # q'" by blast
    with c show False by simp
  qed
  assume a: "(\<exists>p q. text = p @ ''/DEFAULTLIB:LIBCMTD'' @ q) \<and> (\<nexists>p q. text = p @ ''/DEFAULTLIB:MSVCRT'' @ q)"
  then have ds: "regex_search text DEBUG_STATIC_CRT"
    unfolding found_debug_static_iff by blast
  have ndd: "\<not> regex_search text DEBUG_DYNAMIC_CRT"
  proof
    assume "regex_search text DEBUG_DYNAMIC_CRT"
    then obtain p q where "text = p @ ''/DEFAULTLIB:MSVCRTD'' @ q"
      unfolding found_debug_dynamic_iff by blast
    then have "text = p @ ''/DEFAULTLIB:MSVCRT'' @ (CHR ''D'' # q)" by simp
    with a show False by blast
  qed
  have nrd: "\<not> regex_search text RELEASE_DYNAMIC_CRT"
  proof
    assume "regex_search text RELEASE_DYNAMIC_CRT"
    then obtain p c q where "text = p @ ''/DEFAULTLIB:MSVCRT'' @ c # q"
      unfolding found_release_dynamic_iff by blast
    with a show False by blast
  qed
  from ds ndd nrs nrd show c: "crts_found_count text = 1"
    by (simp add: crts_found_count_def)
  from c ds show "classify_lib text lib g = g\<lparr>libs_with_debug_static_crt := libs_with_debug_static_crt g @ [lib]\<rparr>"
    by (simp add: classify_lib_def)
qed

theorem release_static_not_detected_in_debug_static_witness:
  "\<not> regex_search ''/DEFAULTLIB:LIBCMTD'' RELEASE_STATIC_CRT
   \<and> crts_found_count ''/DEFAULTLIB:LIBCMTD'' = 1
   \<and> classify_lib ''/DEFAULTLIB:LIBCMTD'' [''lib'', ''a.lib''] no_libs
       = no_libs\<lparr>libs_with_debug_static_crt := [[''lib'', ''a.lib'']]\<rparr>"
proof -
  have h: "\<forall>p q. ''/DEFAULTLIB:LIBCMTD'' = p @ ''LIBCMT'' @ q \<longrightarrow> (\<exists>p' q'. p = p' @ ''/DEFAULTLIB:'' \<and> q = CHR ''D'' # q')"
    unfolding all_occurrences_iff by simp
  have e: "\<exists>p q. ''/DEFAULTLIB:LIBCMTD'' = p @ ''/DEFAULTLIB:LIBCMTD'' @ q"
    by (rule exI [of _ "[]"], rule exI [of _ "[]"]) simp
  have n: "\<nexists>p q. ''/DEFAULTLIB:LIBCMTD'' = p @ ''/DEFAULTLIB:MSVCRT'' @ q"
    using all_occurrences_iff [of "''/DEFAULTLIB:LIBCMTD''" "''/DEFAULTLIB:MSVCRT''" "\<lambda>p q. False"]
    by simp
  note t = release_static_not_detected_in_debug_static [OF h, of "[''lib'', ''a.lib'']" no_libs]
  note t2 = t [THEN conjunct2, THEN mp, OF conjI [OF e n]]
  have l: "libs_with_debug_static_crt no_libs = []"
    by (simp add: no_libs_def)
  show ?thesis
    using t [THEN conjunct1] t2 [THEN conjunct1] t2 [THEN conjunct2] unfolding l by simp
qed

text \<open>
  C10. A release marker at the very end of the text is not detected, since the expression
  needs one more character that is not \<open>D\<close>: if the text ends with \<open>/DEFAULTLIB:LIBCMT\<close>,
  the release static expression does not match at that final position; if this is the only
  place where that string occurs, the expression is not found in the text; and if the text
  contains no \<open>/DEFAULTLIB:MSVCRT\<close> either, the count is 0 and the library goes to
  \<open>libs_with_no_crts\<close>. The same holds with the two strings exchanged and the release
  dynamic expression.
\<close>

theorem release_marker_at_end_not_detected:
  "(text = p @ ''/DEFAULTLIB:LIBCMT'' \<longrightarrow>
      \<not> match_here RELEASE_STATIC_CRT (drop (length p) text)
      \<and> ((\<forall>p' q'. text = p' @ ''/DEFAULTLIB:LIBCMT'' @ q' \<longrightarrow> q' = []) \<longrightarrow>
           \<not> regex_search text RELEASE_STATIC_CRT
           \<and> ((\<nexists>p' q'. text = p' @ ''/DEFAULTLIB:MSVCRT'' @ q') \<longrightarrow>
                crts_found_count text = 0
                \<and> classify_lib text lib g = g\<lparr>libs_with_no_crts := libs_with_no_crts g @ [lib]\<rparr>)))
   \<and> (text = p @ ''/DEFAULTLIB:MSVCRT'' \<longrightarrow>
      \<not> match_here RELEASE_DYNAMIC_CRT (drop (length p) text)
      \<and> ((\<forall>p' q'. text = p' @ ''/DEFAULTLIB:MSVCRT'' @ q' \<longrightarrow> q' = []) \<longrightarrow>
           \<not> regex_search text RELEASE_DYNAMIC_CRT
           \<and> ((\<nexists>p' q'. text = p' @ ''/DEFAULTLIB:LIBCMT'' @ q') \<longrightarrow>
                crts_found_count text = 0
                \<and> classify_lib text lib g = g\<lparr>libs_with_no_crts := libs_with_no_crts g @ [lib]\<rparr>)))"
proof -
  have zero: "crts_found_count text = 0
           \<and> classify_lib text lib g = g\<lparr>libs_with_no_crts := libs_with_no_crts g @ [lib]\<rparr>"
    if s: "\<forall>p' q'. text = p' @ ''/DEFAULTLIB:LIBCMT'' @ q' \<longrightarrow> q' = []"
      and d: "\<forall>p' q'. text = p' @ ''/DEFAULTLIB:MSVCRT'' @ q' \<longrightarrow> q' = []"
  proof -
    have 1: "\<not> regex_search text DEBUG_STATIC_CRT"
    proof
      assume "regex_search text DEBUG_STATIC_CRT"
      then obtain p' q' where "text = p' @ ''/DEFAULTLIB:LIBCMTD'' @ q'"
        unfolding found_debug_static_iff by blast
      then have "text = p' @ ''/DEFAULTLIB:LIBCMT'' @ (CHR ''D'' # q')" by simp
      with s have "CHR ''D'' # q' = []" by blast
      then show False by simp
    qed
    have 2: "\<not> regex_search text DEBUG_DYNAMIC_CRT"
    proof
      assume "regex_search text DEBUG_DYNAMIC_CRT"
      then obtain p' q' where "text = p' @ ''/DEFAULTLIB:MSVCRTD'' @ q'"
        unfolding found_debug_dynamic_iff by blast
      then have "text = p' @ ''/DEFAULTLIB:MSVCRT'' @ (CHR ''D'' # q')" by simp
      with d have "CHR ''D'' # q' = []" by blast
      then show False by simp
    qed
    have 3: "\<not> regex_search text RELEASE_STATIC_CRT"
    proof
      assume "regex_search text RELEASE_STATIC_CRT"
      then obtain p' c q' where "text = p' @ ''/DEFAULTLIB:LIBCMT'' @ c # q'"
        unfolding found_release_static_iff by blast
      with s have "c # q' = []" by blast
      then show False by simp
    qed
    have 4: "\<not> regex_search text RELEASE_DYNAMIC_CRT"
    proof
      assume "regex_search text RELEASE_DYNAMIC_CRT"
      then obtain p' c q' where "text = p' @ ''/DEFAULTLIB:MSVCRT'' @ c # q'"
        unfolding found_release_dynamic_iff by blast
      with d have "c # q' = []" by blast
      then show False by simp
    qed
    from 1 2 3 4 have c: "crts_found_count text = 0"
      by (simp add: crts_found_count_def)
    then show ?thesis by (simp add: classify_lib_def)
  qed
  have rs: "\<not> regex_search text RELEASE_STATIC_CRT"
    if s: "\<forall>p' q'. text = p' @ ''/DEFAULTLIB:LIBCMT'' @ q' \<longrightarrow> q' = []"
  proof
    assume "regex_search text RELEASE_STATIC_CRT"
    then obtain p' c q' where "text = p' @ ''/DEFAULTLIB:LIBCMT'' @ c # q'"
      unfolding found_release_static_iff by blast
    with s have "c # q' = []" by blast
    then show False by simp
  qed
  have rd: "\<not> regex_search text RELEASE_DYNAMIC_CRT"
    if d: "\<forall>p' q'. text = p' @ ''/DEFAULTLIB:MSVCRT'' @ q' \<longrightarrow> q' = []"
  proof
    assume "regex_search text RELEASE_DYNAMIC_CRT"
    then obtain p' c q' where "text = p' @ ''/DEFAULTLIB:MSVCRT'' @ c # q'"
      unfolding found_release_dynamic_iff by blast
    with d have "c # q' = []" by blast
    then show False by simp
  qed
  have es: "\<not> match_here RELEASE_STATIC_CRT (drop (length p) text)"
    if "text = p @ ''/DEFAULTLIB:LIBCMT''"
    using that by (simp add: RELEASE_STATIC_CRT_def)
  have ed: "\<not> match_here RELEASE_DYNAMIC_CRT (drop (length p) text)"
    if "text = p @ ''/DEFAULTLIB:MSVCRT''"
    using that by (simp add: RELEASE_DYNAMIC_CRT_def)
  show ?thesis
  proof (intro conjI impI)
    assume "text = p @ ''/DEFAULTLIB:LIBCMT''"
    then show "\<not> match_here RELEASE_STATIC_CRT (drop (length p) text)" by (rule es)
  next
    assume "text = p @ ''/DEFAULTLIB:MSVCRT''"
    then show "\<not> match_here RELEASE_DYNAMIC_CRT (drop (length p) text)" by (rule ed)
  next
    assume "\<forall>p' q'. text = p' @ ''/DEFAULTLIB:LIBCMT'' @ q' \<longrightarrow> q' = []"
    then show "\<not> regex_search text RELEASE_STATIC_CRT" by (rule rs)
  next
    assume "\<forall>p' q'. text = p' @ ''/DEFAULTLIB:MSVCRT'' @ q' \<longrightarrow> q' = []"
    then show "\<not> regex_search text RELEASE_DYNAMIC_CRT" by (rule rd)
  next
    assume s: "\<forall>p' q'. text = p' @ ''/DEFAULTLIB:LIBCMT'' @ q' \<longrightarrow> q' = []"
      and "\<nexists>p' q'. text = p' @ ''/DEFAULTLIB:MSVCRT'' @ q'"
    then have d: "\<forall>p' q'. text = p' @ ''/DEFAULTLIB:MSVCRT'' @ q' \<longrightarrow> q' = []" by blast
    from zero [OF s d] show "crts_found_count text = 0" by simp
    from zero [OF s d] show "classify_lib text lib g = g\<lparr>libs_with_no_crts := libs_with_no_crts g @ [lib]\<rparr>" by simp
  next
    assume d: "\<forall>p' q'. text = p' @ ''/DEFAULTLIB:MSVCRT'' @ q' \<longrightarrow> q' = []"
      and "\<nexists>p' q'. text = p' @ ''/DEFAULTLIB:LIBCMT'' @ q'"
    then have s: "\<forall>p' q'. text = p' @ ''/DEFAULTLIB:LIBCMT'' @ q' \<longrightarrow> q' = []" by blast
    from zero [OF s d] show "crts_found_count text = 0" by simp
    from zero [OF s d] show "classify_lib text lib g = g\<lparr>libs_with_no_crts := libs_with_no_crts g @ [lib]\<rparr>" by simp
  qed
qed

theorem release_marker_at_end_not_detected_witness:
  "\<not> match_here RELEASE_STATIC_CRT
       (drop (length ''/DEFAULTLIB:OLDNAMES '') ''/DEFAULTLIB:OLDNAMES /DEFAULTLIB:LIBCMT'')
   \<and> \<not> regex_search ''/DEFAULTLIB:OLDNAMES /DEFAULTLIB:LIBCMT'' RELEASE_STATIC_CRT
   \<and> crts_found_count ''/DEFAULTLIB:OLDNAMES /DEFAULTLIB:LIBCMT'' = 0
   \<and> classify_lib ''/DEFAULTLIB:OLDNAMES /DEFAULTLIB:LIBCMT'' [''lib'', ''a.lib''] no_libs
       = no_libs\<lparr>libs_with_no_crts := [[''lib'', ''a.lib'']]\<rparr>
   \<and> \<not> regex_search ''/DEFAULTLIB:MSVCRT'' RELEASE_DYNAMIC_CRT
   \<and> crts_found_count ''/DEFAULTLIB:MSVCRT'' = 0
   \<and> classify_lib ''/DEFAULTLIB:MSVCRT'' [''lib'', ''a.lib''] no_libs
       = no_libs\<lparr>libs_with_no_crts := [[''lib'', ''a.lib'']]\<rparr>"
proof -
  have s1: "''/DEFAULTLIB:OLDNAMES /DEFAULTLIB:LIBCMT'' = ''/DEFAULTLIB:OLDNAMES '' @ ''/DEFAULTLIB:LIBCMT''"
    by simp
  have s2: "\<forall>p' q'. ''/DEFAULTLIB:OLDNAMES /DEFAULTLIB:LIBCMT'' = p' @ ''/DEFAULTLIB:LIBCMT'' @ q' \<longrightarrow> q' = []"
    unfolding all_occurrences_iff by simp
  have s3: "\<nexists>p' q'. ''/DEFAULTLIB:OLDNAMES /DEFAULTLIB:LIBCMT'' = p' @ ''/DEFAULTLIB:MSVCRT'' @ q'"
    using all_occurrences_iff [of "''/DEFAULTLIB:OLDNAMES /DEFAULTLIB:LIBCMT''" "''/DEFAULTLIB:MSVCRT''" "\<lambda>p q. False"]
    by simp
  have d1: "''/DEFAULTLIB:MSVCRT'' = [] @ ''/DEFAULTLIB:MSVCRT''"
    by simp
  have d2: "\<forall>p' q'. ''/DEFAULTLIB:MSVCRT'' = p' @ ''/DEFAULTLIB:MSVCRT'' @ q' \<longrightarrow> q' = []"
    unfolding all_occurrences_iff by simp
  have d3: "\<nexists>p' q'. ''/DEFAULTLIB:MSVCRT'' = p' @ ''/DEFAULTLIB:LIBCMT'' @ q'"
    using all_occurrences_iff [of "''/DEFAULTLIB:MSVCRT''" "''/DEFAULTLIB:LIBCMT''" "\<lambda>p q. False"]
    by simp
  note a0 = release_marker_at_end_not_detected
    [of "''/DEFAULTLIB:OLDNAMES /DEFAULTLIB:LIBCMT''" "''/DEFAULTLIB:OLDNAMES ''" "[''lib'', ''a.lib'']" no_libs,
     THEN conjunct1, THEN mp, OF s1]
  note a = a0 [THEN conjunct2, THEN mp, OF s2]
  note a2 = a [THEN conjunct2, THEN mp, OF s3]
  note b0 = release_marker_at_end_not_detected
    [of "''/DEFAULTLIB:MSVCRT''" "[]" "[''lib'', ''a.lib'']" no_libs,
     THEN conjunct2, THEN mp, OF d1]
  note b = b0 [THEN conjunct2, THEN mp, OF d2]
  note b2 = b [THEN conjunct2, THEN mp, OF d3]
  have l: "libs_with_no_crts no_libs = []"
    by (simp add: no_libs_def)
  show ?thesis
    using a0 [THEN conjunct1] a [THEN conjunct1] a2 [THEN conjunct1] a2 [THEN conjunct2]
      b [THEN conjunct1] b2 [THEN conjunct1] b2 [THEN conjunct2]
    unfolding l by simp
qed

subsection \<open>The architecture of a machine type\<close>

text \<open>
  C3. \<open>get_actual_architecture\<close> is a total function of the 16-bit machine type: it has
  no failing branch. Whatever distinct values the five enumerators have, it returns
  \<open>x64\<close> for AMD64 and IA64, \<open>x86\<close> for I386, \<open>arm\<close> for ARM and ARMNT, and for every
  other code the text \<open>Machine Type Code = \<close> followed by the decimal digits of the code
  (digits whose decimal value is the code).
\<close>

theorem get_actual_architecture_mapping:
  assumes "distinct [AMD64 mt, IA64 mt, I386 mt, ARM mt, ARMNT mt]"
  shows "get_actual_architecture mt (AMD64 mt) = ''x64''
       \<and> get_actual_architecture mt (IA64 mt) = ''x64''
       \<and> get_actual_architecture mt (I386 mt) = ''x86''
       \<and> get_actual_architecture mt (ARM mt) = ''arm''
       \<and> get_actual_architecture mt (ARMNT mt) = ''arm''
       \<and> (\<forall>c. c \<notin> {AMD64 mt, IA64 mt, I386 mt, ARM mt, ARMNT mt} \<longrightarrow>
              get_actual_architecture mt c = ''Machine Type Code = '' @ to_string (unat c)
              \<and> decimal_value (to_string (unat c)) = unat c)"
  using assms by (auto simp: get_actual_architecture_def decimal_value_to_string)

theorem get_actual_architecture_mapping_witness:
  "distinct [AMD64 pe_codes, IA64 pe_codes, I386 pe_codes, ARM pe_codes, ARMNT pe_codes]
   \<and> get_actual_architecture pe_codes 0x8664 = ''x64''
   \<and> get_actual_architecture pe_codes 0x200 = ''x64''
   \<and> get_actual_architecture pe_codes 0x14c = ''x86''
   \<and> get_actual_architecture pe_codes 0x1c0 = ''arm''
   \<and> get_actual_architecture pe_codes 0x1c4 = ''arm''
   \<and> get_actual_architecture pe_codes 0xaa64 = ''Machine Type Code = 43620''
   \<and> get_actual_architecture pe_codes 0 = ''Machine Type Code = 0''"
proof -
  have d: "distinct [AMD64 pe_codes, IA64 pe_codes, I386 pe_codes, ARM pe_codes, ARMNT pe_codes]"
    by (simp add: pe_codes_def)
  show ?thesis
    using d get_actual_architecture_mapping [OF d]
    by (simp add: pe_codes_def to_string.simps digit_char_def)
qed

subsection \<open>Matching numbers of debug and release binaries\<close>

text \<open>
  C7. \<open>check_matching_debug_and_release_binaries\<close> returns SUCCESS exactly when the two
  lists have the same length, and prints nothing then (so also for two empty lists). When
  the lengths differ it returns ERROR\_DETECTED, its first printed line reports both counts,
  and it prints that the debug (release) binaries were not found exactly when the debug
  (release) list is empty.
\<close>

theorem check_matching_debug_and_release_binaries_iff:
  "(snd (check_matching_debug_and_release_binaries debug_binaries release_binaries) = SUCCESS
      \<longleftrightarrow> length debug_binaries = length release_binaries)
   \<and> (length debug_binaries = length release_binaries \<longrightarrow>
        check_matching_debug_and_release_binaries debug_binaries release_binaries = ([], SUCCESS))
   \<and> (length debug_binaries \<noteq> length release_binaries \<longrightarrow>
        snd (check_matching_debug_and_release_binaries debug_binaries release_binaries) = ERROR_DETECTED
        \<and> hd (fst (check_matching_debug_and_release_binaries debug_binaries release_binaries))
            = (warning, ''Mismatching number of debug and release binaries. Found ''
                 @ to_string (length debug_binaries) @ '' for debug but ''
                 @ to_string (length release_binaries) @ '' for release.'')
        \<and> ((warning, ''Debug binaries were not found'')
              \<in> set (fst (check_matching_debug_and_release_binaries debug_binaries release_binaries))
            \<longleftrightarrow> debug_binaries = [])
        \<and> ((warning, ''Release binaries were not found'')
              \<in> set (fst (check_matching_debug_and_release_binaries debug_binaries release_binaries))
            \<longleftrightarrow> release_binaries = []))"
  by (auto simp: check_matching_debug_and_release_binaries_def Let_def print_vector_of_files_def)

theorem check_matching_debug_and_release_binaries_witness:
  "length [[''debug'', ''lib'', ''a.lib''], [''debug'', ''lib'', ''b.lib'']]
     \<noteq> length [[''lib'', ''a.lib''], [''lib'', ''b.lib''], [''lib'', ''c.lib'']]
   \<and> snd (check_matching_debug_and_release_binaries
          [[''debug'', ''lib'', ''a.lib''], [''debug'', ''lib'', ''b.lib'']]
          [[''lib'', ''a.lib''], [''lib'', ''b.lib''], [''lib'', ''c.lib'']]) = ERROR_DETECTED
   \<and> hd (fst (check_matching_debug_and_release_binaries
          [[''debug'', ''lib'', ''a.lib''], [''debug'', ''lib'', ''b.lib'']]
          [[''lib'', ''a.lib''], [''lib'', ''b.lib''], [''lib'', ''c.lib'']]))
       = (warning, ''Mismatching number of debug and release binaries. Found 2 for debug but 3 for release.'')
   \<and> check_matching_debug_and_release_binaries [] [] = ([], SUCCESS)"
  using check_matching_debug_and_release_binaries_iff
          [of "[[''debug'', ''lib'', ''a.lib''], [''debug'', ''lib'', ''b.lib'']]"
              "[[''lib'', ''a.lib''], [''lib'', ''b.lib''], [''lib'', ''c.lib'']]"]
        check_matching_debug_and_release_binaries_iff [of "[]" "[]"]
  by (simp add: to_string.simps digit_char_def)

subsection \<open>Directory iteration and lookup\<close>

lemma lookup_append:
  "lookup n (p @ q) = (case lookup n p of None \<Rightarrow> None | Some m \<Rightarrow> lookup m q)"
proof (induction n p rule: lookup.induct)
  case (1 n)
  then show ?case by simp
next
  case (2 sz c cs)
  then show ?case by simp
next
  case (3 es c cs)
  then show ?case by (simp split: option.splits)
qed

lemma walk_complete:
  "lookup n rest = Some m \<Longrightarrow> rest \<noteq> [] \<Longrightarrow> (p @ rest, m, d + length rest - 1) \<in> set (walk p d n)"
  "map_of es c = Some k \<Longrightarrow> lookup k cs = Some m \<Longrightarrow>
     (p @ c # cs, m, d + length cs) \<in> set (walk_children p d es)"
proof (induction p d n and p d es arbitrary: rest m and c k cs m rule: walk_walk_children.induct)
  case (1 p d sz)
  then show ?case by (cases rest) auto
next
  case (2 p d es)
  from 2(3) obtain c cs where rest: "rest = c # cs" by (cases rest) auto
  with 2(2) obtain k where "map_of es c = Some k" "lookup k cs = Some m"
    by (auto split: option.splits)
  from 2(1) [OF this] rest show ?case by simp
next
  case (3 p d)
  then show ?case by simp
next
  case (4 p d n c' es)
  show ?case
  proof (cases "c = n")
    case True
    with 4(3) have k: "k = c'" by simp
    show ?thesis
    proof (cases cs)
      case Nil
      with 4(4) k True show ?thesis by simp
    next
      case (Cons a as)
      with 4(1) [of cs m] 4(4) k True show ?thesis by auto
    qed
  next
    case False
    with 4(3) have "map_of es c = Some k" by simp
    from 4(2) [OF this 4(4)] show ?thesis by simp
  qed
qed

lemma walk_sound:
  "(q, m, e) \<in> set (walk p d n) \<Longrightarrow> distinct_names n \<Longrightarrow>
     \<exists>rest. rest \<noteq> [] \<and> q = p @ rest \<and> lookup n rest = Some m"
  "(q, m, e) \<in> set (walk_children p d es) \<Longrightarrow> distinct (map fst es) \<Longrightarrow> distinct_names_children es \<Longrightarrow>
     \<exists>rest. rest \<noteq> [] \<and> q = p @ rest \<and> lookup (Dir es) rest = Some m"
proof (induction p d n and p d es arbitrary: q m e and q m e rule: walk_walk_children.induct)
  case (1 p d sz)
  then show ?case by simp
next
  case (2 p d es)
  then show ?case by simp
next
  case (3 p d)
  then show ?case by simp
next
  case (4 p d n c es)
  from 4(3) consider "(q, m, e) = (p @ [n], c, d)" | "(q, m, e) \<in> set (walk (p @ [n]) (Suc d) c)"
    | "(q, m, e) \<in> set (walk_children p d es)" by auto
  then show ?case
  proof cases
    case 1
    then have "[n] \<noteq> [] \<and> q = p @ [n] \<and> lookup (Dir ((n, c) # es)) [n] = Some m" by simp
    then show ?thesis by blast
  next
    case 2
    from 4(1) [OF 2] 4(5) obtain rest where r: "rest \<noteq> []" "q = (p @ [n]) @ rest" "lookup c rest = Some m"
      by auto
    then have "n # rest \<noteq> [] \<and> q = p @ (n # rest) \<and> lookup (Dir ((n, c) # es)) (n # rest) = Some m"
      by simp
    then show ?thesis by blast
  next
    case 3
    from 4(2) [OF 3] 4(4) 4(5) obtain rest where r: "rest \<noteq> []" "q = p @ rest" "lookup (Dir es) rest = Some m"
      by auto
    from r obtain a as where rest: "rest = a # as" by (cases rest) auto
    with r have "map_of es a \<noteq> None" by (auto split: option.splits)
    then have "a \<in> fst ` set es" by (auto simp: map_of_eq_None_iff)
    with 4(4) have "a \<noteq> n" by auto
    with r rest have "lookup (Dir ((n, c) # es)) rest = Some m" by simp
    with r show ?thesis by blast
  qed
qed

lemma distinct_names_children_member:
  "distinct_names_children es \<Longrightarrow> (c, k) \<in> set es \<Longrightarrow> distinct_names k"
  by (induction es) auto

lemma distinct_names_lookup:
  "lookup n p = Some m \<Longrightarrow> distinct_names n \<Longrightarrow> distinct_names m"
proof (induction n p rule: lookup.induct)
  case (1 n)
  then show ?case by simp
next
  case (2 sz c cs)
  then show ?case by simp
next
  case (3 es c cs)
  from 3(2) obtain k where k: "map_of es c = Some k" "lookup k cs = Some m"
    by (auto split: option.splits)
  from k(1) have "(c, k) \<in> set es" by (rule map_of_SomeD)
  with 3(3) have "distinct_names k" by (auto dest: distinct_names_children_member)
  from 3(1) [OF k(1) k(2) this] show ?case .
qed

text \<open>The entries of a recursive iteration are the nodes strictly below the directory.\<close>

lemma recursive_directory_iterator_iff:
  assumes "distinct_names root"
  shows "(\<exists>d. (q, m, d) \<in> set (recursive_directory_iterator root dir))
         \<longleftrightarrow> (\<exists>rest. rest \<noteq> [] \<and> q = dir @ rest \<and> lookup root q = Some m)"
proof
  assume "\<exists>d. (q, m, d) \<in> set (recursive_directory_iterator root dir)"
  then obtain d where d: "(q, m, d) \<in> set (recursive_directory_iterator root dir)" by blast
  have "\<exists>es. lookup root dir = Some (Dir es) \<and> (q, m, d) \<in> set (walk_children dir 0 es)"
  proof (cases "lookup root dir")
    case None
    with d show ?thesis by (simp add: recursive_directory_iterator_def)
  next
    case (Some n)
    with d show ?thesis by (cases n) (simp_all add: recursive_directory_iterator_def)
  qed
  then obtain es where es: "lookup root dir = Some (Dir es)" and w: "(q, m, d) \<in> set (walk_children dir 0 es)"
    by blast
  from distinct_names_lookup [OF es assms] have "distinct (map fst es)" "distinct_names_children es"
    by simp_all
  from walk_sound(2) [OF w this] obtain rest where r: "rest \<noteq> []" "q = dir @ rest" "lookup (Dir es) rest = Some m"
    by blast
  with es have "lookup root q = Some m" by (simp add: lookup_append)
  with r show "\<exists>rest. rest \<noteq> [] \<and> q = dir @ rest \<and> lookup root q = Some m" by blast
next
  assume "\<exists>rest. rest \<noteq> [] \<and> q = dir @ rest \<and> lookup root q = Some m"
  then obtain rest where r: "rest \<noteq> []" "q = dir @ rest" "lookup root q = Some m" by blast
  then obtain n where n: "lookup root dir = Some n" "lookup n rest = Some m"
    by (auto simp: lookup_append split: option.splits)
  from r(1) obtain c cs where rest: "rest = c # cs" by (cases rest) auto
  with n(2) obtain es where es: "n = Dir es" by (cases n) auto
  from walk_complete(1) [OF n(2) r(1), of dir 0] es r(2)
  have "(q, m, length rest - 1) \<in> set (walk_children dir 0 es)" by simp
  with n(1) es have "(q, m, length rest - 1) \<in> set (recursive_directory_iterator root dir)"
    by (simp add: recursive_directory_iterator_def)
  then show "\<exists>d. (q, m, d) \<in> set (recursive_directory_iterator root dir)" by blast
qed

lemma recursive_find_files_with_extension_in_dir_iff:
  assumes "distinct_names root"
  shows "q \<in> set (recursive_find_files_with_extension_in_dir root dir ext)
         \<longleftrightarrow> (\<exists>rest sz. rest \<noteq> [] \<and> q = dir @ rest \<and> lookup root q = Some (File sz)
                \<and> extension_of (last rest) = ext)"
proof
  assume "q \<in> set (recursive_find_files_with_extension_in_dir root dir ext)"
  then obtain m d where e: "(q, m, d) \<in> set (recursive_directory_iterator root dir)"
    "\<not> node_is_directory m" "extension q = ext"
    by (auto simp: recursive_find_files_with_extension_in_dir_def recursive_find_matching_paths_in_dir_def
        entry_path_def is_directory_def)
  from e(2) obtain sz where m: "m = File sz" by (cases m) auto
  from e(1) recursive_directory_iterator_iff [OF assms, of q m dir]
  obtain rest where r: "rest \<noteq> []" "q = dir @ rest" "lookup root q = Some m" by blast
  from r e(3) have "extension_of (last rest) = ext" by (simp add: extension_def filename_def)
  with r m show "\<exists>rest sz. rest \<noteq> [] \<and> q = dir @ rest \<and> lookup root q = Some (File sz)
                \<and> extension_of (last rest) = ext" by blast
next
  assume "\<exists>rest sz. rest \<noteq> [] \<and> q = dir @ rest \<and> lookup root q = Some (File sz)
                \<and> extension_of (last rest) = ext"
  then obtain rest sz where r: "rest \<noteq> []" "q = dir @ rest" "lookup root q = Some (File sz)"
    "extension_of (last rest) = ext" by blast
  with recursive_directory_iterator_iff [OF assms, of q "File sz" dir]
  obtain d where d: "(q, File sz, d) \<in> set (recursive_directory_iterator root dir)" by blast
  from r have "extension q = ext" by (simp add: extension_def filename_def)
  with d have "(q, File sz, d) \<in> set (filter (\<lambda>current. \<not> is_directory current \<and> extension (entry_path current) = ext)
     (recursive_directory_iterator root dir))"
    by (simp add: is_directory_def entry_path_def)
  then have "entry_path (q, File sz, d) \<in> set (recursive_find_files_with_extension_in_dir root dir ext)"
    unfolding recursive_find_files_with_extension_in_dir_def recursive_find_matching_paths_in_dir_def
    by (simp only: set_map) (rule imageI)
  then show "q \<in> set (recursive_find_files_with_extension_in_dir root dir ext)"
    by (simp add: entry_path_def)
qed

text \<open>In such a filesystem an iteration yields every path once.\<close>

lemma walk_paths:
  "e \<in> set (walk p d n) \<Longrightarrow> \<exists>a as. fst e = p @ a # as"
  "e \<in> set (walk_children p d es) \<Longrightarrow> \<exists>a as. fst e = p @ a # as \<and> a \<in> fst ` set es"
proof (induction p d n and p d es arbitrary: e and e rule: walk_walk_children.induct)
  case (1 p d sz)
  then show ?case by simp
next
  case (2 p d es)
  from 2(2) have "e \<in> set (walk_children p d es)" by simp
  from 2(1) [OF this] show ?case by blast
next
  case (3 p d)
  then show ?case by simp
next
  case (4 p d n c es)
  from 4(3) consider "e = (p @ [n], c, d)" | "e \<in> set (walk (p @ [n]) (Suc d) c)"
    | "e \<in> set (walk_children p d es)" by auto
  then show ?case
  proof cases
    case 1
    then have "fst e = p @ n # [] \<and> n \<in> fst ` set ((n, c) # es)" by simp
    then show ?thesis by blast
  next
    case 2
    from 4(1) [OF 2] obtain a as where "fst e = (p @ [n]) @ a # as" by blast
    then have "fst e = p @ n # (a # as) \<and> n \<in> fst ` set ((n, c) # es)" by simp
    then show ?thesis by blast
  next
    case 3
    from 4(2) [OF 3] obtain a as where "fst e = p @ a # as" "a \<in> fst ` set es" by blast
    then have "fst e = p @ a # as \<and> a \<in> fst ` set ((n, c) # es)" by simp
    then show ?thesis by blast
  qed
qed

lemma walk_distinct:
  "distinct_names n \<Longrightarrow> distinct (map fst (walk p d n))"
  "distinct (map fst es) \<Longrightarrow> distinct_names_children es \<Longrightarrow> distinct (map fst (walk_children p d es))"
proof (induction p d n and p d es rule: walk_walk_children.induct)
  case (1 p d sz)
  then show ?case by simp
next
  case (2 p d es)
  then show ?case by simp
next
  case (3 p d)
  then show ?case by simp
next
  case (4 p d n c es)
  from 4(3,4) have n: "n \<notin> fst ` set es" and de: "distinct (map fst es)"
    and wc: "distinct_names c" and we: "distinct_names_children es" by auto
  have a: "distinct (map fst (walk (p @ [n]) (Suc d) c))" using 4(1) wc by simp
  have b: "distinct (map fst (walk_children p d es))" using 4(2) de we by simp
  have c1: "p @ [n] \<notin> fst ` set (walk (p @ [n]) (Suc d) c)"
  proof
    assume "p @ [n] \<in> fst ` set (walk (p @ [n]) (Suc d) c)"
    then obtain e where "e \<in> set (walk (p @ [n]) (Suc d) c)" "fst e = p @ [n]" by auto
    with walk_paths(1) [of e "p @ [n]" "Suc d" c] show False by auto
  qed
  have c2: "p @ [n] \<notin> fst ` set (walk_children p d es)"
  proof
    assume "p @ [n] \<in> fst ` set (walk_children p d es)"
    then obtain e where "e \<in> set (walk_children p d es)" "fst e = p @ [n]" by auto
    with walk_paths(2) [of e p d es] obtain a as where "p @ [n] = p @ a # as" "a \<in> fst ` set es" by auto
    with n show False by simp
  qed
  have c3: "fst ` set (walk (p @ [n]) (Suc d) c) \<inter> fst ` set (walk_children p d es) = {}"
  proof (rule ccontr)
    assume "fst ` set (walk (p @ [n]) (Suc d) c) \<inter> fst ` set (walk_children p d es) \<noteq> {}"
    then obtain q where "q \<in> fst ` set (walk (p @ [n]) (Suc d) c)" "q \<in> fst ` set (walk_children p d es)"
      by blast
    then obtain e e' where e: "e \<in> set (walk (p @ [n]) (Suc d) c)" "e' \<in> set (walk_children p d es)"
      "fst e = q" "fst e' = q" by auto
    from walk_paths(1) [OF e(1)] obtain a as where 1: "fst e = (p @ [n]) @ a # as" by blast
    from walk_paths(2) [OF e(2)] obtain a' as' where 2: "fst e' = p @ a' # as'" "a' \<in> fst ` set es" by blast
    from 1 2 e(3,4) have "(p @ [n]) @ a # as = p @ a' # as'" by simp
    then have "n = a'" by simp
    with 2(2) n show False by simp
  qed
  have "map fst (walk_children p d ((n, c) # es))
      = (p @ [n]) # map fst (walk (p @ [n]) (Suc d) c) @ map fst (walk_children p d es)"
    by simp
  moreover have "distinct ((p @ [n]) # map fst (walk (p @ [n]) (Suc d) c) @ map fst (walk_children p d es))"
    using a b c1 c2 c3 by (simp only: distinct.simps distinct_append set_append set_map Un_iff) blast
  ultimately show ?case by (simp only:)
qed

lemma recursive_find_files_with_extension_in_dir_distinct:
  assumes "distinct_names root"
  shows "distinct (recursive_find_files_with_extension_in_dir root dir ext)"
proof -
  have "distinct (map fst (recursive_directory_iterator root dir))"
  proof (cases "lookup root dir")
    case None
    then show ?thesis by (simp add: recursive_directory_iterator_def)
  next
    case (Some n)
    show ?thesis
    proof (cases n)
      case (File sz)
      with Some show ?thesis by (simp add: recursive_directory_iterator_def)
    next
      case (Dir es)
      from distinct_names_lookup [OF Some assms] Dir
      have "distinct (map fst es)" "distinct_names_children es" by simp_all
      from walk_distinct(2) [OF this] Some Dir show ?thesis
        by (simp add: recursive_directory_iterator_def)
    qed
  qed
  then have "distinct (map fst (filter (\<lambda>current. \<not> is_directory current \<and> extension (entry_path current) = ext)
      (recursive_directory_iterator root dir)))"
    by (rule distinct_map_filter)
  moreover have "entry_path = fst" by (rule ext) (simp add: entry_path_def)
  ultimately show ?thesis
    by (simp add: recursive_find_files_with_extension_in_dir_def recursive_find_matching_paths_in_dir_def)
qed

lemmas example_defs = example_spec_def example_paths_def example_env_def complete_package_def

lemmas fs_defs = recursive_find_files_with_extension_in_dir_def recursive_find_matching_paths_in_dir_def
  recursive_directory_iterator_def entry_path_def is_directory_def entry_is_empty_def depth_def
  extension_def extension_of_def filename_def exists_def is_empty_def

subsection \<open>Executable files\<close>

text \<open>
  C5, as the specification states it, fails: \<open>check_for_exes\<close> iterates over the
  directories \<open>bin\<close> and \<open>debug/bin\<close> of the package only. A package with an executable
  file in \<open>tools\<close> passes the check.
\<close>

theorem check_for_exes_counterexample:
  "lookup (filesystem (example_env (complete_package @ [(''tools'', Dir [(''minigzip.exe'', File 1000)])]) (\<lambda>file. [0x14c])))
      (packages example_paths @ [spec_dir example_spec] @ [''tools'', ''minigzip.exe'']) = Some (File 1000)
   \<and> extension [''tools'', ''minigzip.exe''] = ''.exe''
   \<and> check_for_exes (example_env (complete_package @ [(''tools'', Dir [(''minigzip.exe'', File 1000)])]) (\<lambda>file. [0x14c]))
        example_spec example_paths = ([], SUCCESS)"
  by (simp add: check_for_exes_def example_defs fs_defs)

text \<open>
  C5, amended. In a filesystem whose directories have entries of distinct names,
  \<open>check_for_exes\<close> returns ERROR\_DETECTED exactly when a file with the extension
  \<open>.exe\<close> exists somewhere below the directory \<open>bin\<close> or the directory \<open>debug/bin\<close> of
  the package; every such file is listed in the output, and otherwise the check returns
  SUCCESS and prints nothing. The output is the warning followed by the listing of a list of
  paths without repetition, and the paths of that list are exactly those files: a file
  elsewhere in the package is not listed, whatever \<open>bin\<close> and \<open>debug/bin\<close> hold.
\<close>

theorem check_for_exes_iff:
  assumes "distinct_names (filesystem env)"
  shows "(snd (check_for_exes env spec paths) = ERROR_DETECTED \<longleftrightarrow>
           (\<exists>rest sz. rest \<noteq> [] \<and> extension_of (last rest) = ''.exe''
              \<and> (lookup (filesystem env) (packages paths @ [spec_dir spec] @ [''bin''] @ rest) = Some (File sz)
                 \<or> lookup (filesystem env) (packages paths @ [spec_dir spec] @ [''debug''] @ [''bin''] @ rest) = Some (File sz))))
       \<and> (\<forall>rest sz. rest \<noteq> [] \<and> extension_of (last rest) = ''.exe''
              \<and> lookup (filesystem env) (packages paths @ [spec_dir spec] @ [''bin''] @ rest) = Some (File sz)
            \<longrightarrow> (no_color, ''    '' @ generic_string (packages paths @ [spec_dir spec] @ [''bin''] @ rest))
                  \<in> set (fst (check_for_exes env spec paths)))
       \<and> (\<forall>rest sz. rest \<noteq> [] \<and> extension_of (last rest) = ''.exe''
              \<and> lookup (filesystem env) (packages paths @ [spec_dir spec] @ [''debug''] @ [''bin''] @ rest) = Some (File sz)
            \<longrightarrow> (no_color, ''    '' @ generic_string (packages paths @ [spec_dir spec] @ [''debug''] @ [''bin''] @ rest))
                  \<in> set (fst (check_for_exes env spec paths)))
       \<and> (snd (check_for_exes env spec paths) \<noteq> ERROR_DETECTED \<longrightarrow> check_for_exes env spec paths = ([], SUCCESS))
       \<and> (\<exists>exes.
             fst (check_for_exes env spec paths) =
               (if exes = [] then []
                else [(warning, ''The following EXEs were found in /bin and /debug/bin. EXEs are not valid distribution targets.'')]
                     @ print_vector_of_files exes)
             \<and> distinct exes
             \<and> (\<forall>q. q \<in> set exes \<longleftrightarrow>
                   (\<exists>rest sz. rest \<noteq> [] \<and> extension_of (last rest) = ''.exe''
                      \<and> (q = packages paths @ [spec_dir spec] @ [''bin''] @ rest
                         \<or> q = packages paths @ [spec_dir spec] @ [''debug''] @ [''bin''] @ rest)
                      \<and> lookup (filesystem env) q = Some (File sz))))"
proof -
  define bin where "bin = packages paths @ [spec_dir spec] @ [''bin'']"
  define debug_bin where "debug_bin = packages paths @ [spec_dir spec] @ [''debug''] @ [''bin'']"
  define exes where "exes = recursive_find_files_with_extension_in_dir (filesystem env) bin ''.exe''
            @ recursive_find_files_with_extension_in_dir (filesystem env) debug_bin ''.exe''"
  have res: "check_for_exes env spec paths =
     (if exes \<noteq> [] then ([(warning, ''The following EXEs were found in /bin and /debug/bin. EXEs are not valid distribution targets.'')]
            @ print_vector_of_files exes, ERROR_DETECTED) else ([], SUCCESS))"
    by (simp add: check_for_exes_def exes_def bin_def debug_bin_def Let_def)
  have mem: "q \<in> set exes \<longleftrightarrow>
     (\<exists>rest sz. rest \<noteq> [] \<and> extension_of (last rest) = ''.exe''
        \<and> (q = bin @ rest \<or> q = debug_bin @ rest) \<and> lookup (filesystem env) q = Some (File sz))" for q
    unfolding exes_def set_append Un_iff recursive_find_files_with_extension_in_dir_iff [OF assms]
    by blast
  have dist: "distinct exes"
  proof -
    have "set (recursive_find_files_with_extension_in_dir (filesystem env) bin ''.exe'')
        \<inter> set (recursive_find_files_with_extension_in_dir (filesystem env) debug_bin ''.exe'') = {}"
    proof (rule ccontr)
      assume "set (recursive_find_files_with_extension_in_dir (filesystem env) bin ''.exe'')
        \<inter> set (recursive_find_files_with_extension_in_dir (filesystem env) debug_bin ''.exe'') \<noteq> {}"
      then obtain q where "q \<in> set (recursive_find_files_with_extension_in_dir (filesystem env) bin ''.exe'')"
        "q \<in> set (recursive_find_files_with_extension_in_dir (filesystem env) debug_bin ''.exe'')"
        by blast
      then obtain r r' where "q = bin @ r" "q = debug_bin @ r'"
        unfolding recursive_find_files_with_extension_in_dir_iff [OF assms] by blast
      then have "(packages paths @ [spec_dir spec]) @ ''bin'' # r
          = (packages paths @ [spec_dir spec]) @ ''debug'' # ''bin'' # r'"
        by (simp add: bin_def debug_bin_def)
      then have "''bin'' # r = ''debug'' # ''bin'' # r'" by (simp only: same_append_eq)
      then show False by simp
    qed
    then show ?thesis
      unfolding exes_def
      by (simp add: recursive_find_files_with_extension_in_dir_distinct [OF assms])
  qed
  have listed: "(no_color, ''    '' @ generic_string q) \<in> set (fst (check_for_exes env spec paths))"
    if "q \<in> set exes" for q
  proof -
    from that have "exes \<noteq> []" by auto
    with that show ?thesis by (simp add: res print_vector_of_files_def)
  qed
  have 1: "snd (check_for_exes env spec paths) = ERROR_DETECTED \<longleftrightarrow> (\<exists>q. q \<in> set exes)"
    by (cases exes) (auto simp: res)
  show ?thesis
  proof (intro conjI allI impI)
    show "snd (check_for_exes env spec paths) = ERROR_DETECTED \<longleftrightarrow>
           (\<exists>rest sz. rest \<noteq> [] \<and> extension_of (last rest) = ''.exe''
              \<and> (lookup (filesystem env) (packages paths @ [spec_dir spec] @ [''bin''] @ rest) = Some (File sz)
                 \<or> lookup (filesystem env) (packages paths @ [spec_dir spec] @ [''debug''] @ [''bin''] @ rest) = Some (File sz)))"
      unfolding 1 mem bin_def debug_bin_def by (simp only: append_assoc) blast
  next
    fix rest sz
    assume "rest \<noteq> [] \<and> extension_of (last rest) = ''.exe''
              \<and> lookup (filesystem env) (packages paths @ [spec_dir spec] @ [''bin''] @ rest) = Some (File sz)"
    then have "bin @ rest \<in> set exes" unfolding mem bin_def by (simp only: append_assoc) blast
    from listed [OF this]
    show "(no_color, ''    '' @ generic_string (packages paths @ [spec_dir spec] @ [''bin''] @ rest))
                  \<in> set (fst (check_for_exes env spec paths))"
      by (simp add: bin_def)
  next
    fix rest sz
    assume "rest \<noteq> [] \<and> extension_of (last rest) = ''.exe''
              \<and> lookup (filesystem env) (packages paths @ [spec_dir spec] @ [''debug''] @ [''bin''] @ rest) = Some (File sz)"
    then have "debug_bin @ rest \<in> set exes" unfolding mem debug_bin_def by (simp only: append_assoc) blast
    from listed [OF this]
    show "(no_color, ''    '' @ generic_string (packages paths @ [spec_dir spec] @ [''debug''] @ [''bin''] @ rest))
                  \<in> set (fst (check_for_exes env spec paths))"
      by (simp add: debug_bin_def)
  next
    assume "snd (check_for_exes env spec paths) \<noteq> ERROR_DETECTED"
    then show "check_for_exes env spec paths = ([], SUCCESS)"
      by (simp add: res split: if_splits)
  next
    have o: "fst (check_for_exes env spec paths) =
               (if exes = [] then []
                else [(warning, ''The following EXEs were found in /bin and /debug/bin. EXEs are not valid distribution targets.'')]
                     @ print_vector_of_files exes)"
      by (simp add: res)
    have m: "\<forall>q. q \<in> set exes \<longleftrightarrow>
                   (\<exists>rest sz. rest \<noteq> [] \<and> extension_of (last rest) = ''.exe''
                      \<and> (q = packages paths @ [spec_dir spec] @ [''bin''] @ rest
                         \<or> q = packages paths @ [spec_dir spec] @ [''debug''] @ [''bin''] @ rest)
                      \<and> lookup (filesystem env) q = Some (File sz))"
      unfolding mem bin_def debug_bin_def by (simp only: append_assoc) blast
    from o dist m show "(\<exists>exes.
      fst (check_for_exes env spec paths) =
        (if exes = [] then []
         else [(warning, ''The following EXEs were found in /bin and /debug/bin. EXEs are not valid distribution targets.'')]
              @ print_vector_of_files exes)
      \<and> distinct exes
      \<and> (\<forall>q. q \<in> set exes \<longleftrightarrow>
            (\<exists>rest sz. rest \<noteq> [] \<and> extension_of (last rest) = ''.exe''
               \<and> (q = packages paths @ [spec_dir spec] @ [''bin''] @ rest
                  \<or> q = packages paths @ [spec_dir spec] @ [''debug''] @ [''bin''] @ rest)
               \<and> lookup (filesystem env) q = Some (File sz))))"
      by blast
  qed
qed

theorem check_for_exes_iff_witness:
  "distinct_names (filesystem
        (example_env [(''bin'', Dir [(''zlib.dll'', File 1000), (''minigzip.exe'', File 1000)]),
                      (''tools'', Dir [(''other.exe'', File 7)])] (\<lambda>file. [0x14c])))
   \<and> snd (check_for_exes
        (example_env [(''bin'', Dir [(''zlib.dll'', File 1000), (''minigzip.exe'', File 1000)]),
                      (''tools'', Dir [(''other.exe'', File 7)])] (\<lambda>file. [0x14c]))
        example_spec example_paths) = ERROR_DETECTED
   \<and> (no_color, ''    packages/zlib_x86-windows/bin/minigzip.exe'')
       \<in> set (fst (check_for_exes
        (example_env [(''bin'', Dir [(''zlib.dll'', File 1000), (''minigzip.exe'', File 1000)]),
                      (''tools'', Dir [(''other.exe'', File 7)])] (\<lambda>file. [0x14c]))
        example_spec example_paths))
   \<and> lookup (filesystem
        (example_env [(''bin'', Dir [(''zlib.dll'', File 1000), (''minigzip.exe'', File 1000)]),
                      (''tools'', Dir [(''other.exe'', File 7)])] (\<lambda>file. [0x14c])))
        [''packages'', ''zlib_x86-windows'', ''tools'', ''other.exe''] = Some (File 7)
   \<and> (no_color, ''    packages/zlib_x86-windows/tools/other.exe'')
       \<notin> set (fst (check_for_exes
        (example_env [(''bin'', Dir [(''zlib.dll'', File 1000), (''minigzip.exe'', File 1000)]),
                      (''tools'', Dir [(''other.exe'', File 7)])] (\<lambda>file. [0x14c]))
        example_spec example_paths))
   \<and> check_for_exes (example_env complete_package (\<lambda>file. [0x14c])) example_spec example_paths = ([], SUCCESS)"
proof -
  let ?E = "example_env [(''bin'', Dir [(''zlib.dll'', File 1000), (''minigzip.exe'', File 1000)]),
                      (''tools'', Dir [(''other.exe'', File 7)])] (\<lambda>file. [0x14c])"
  let ?G = "example_env complete_package (\<lambda>file. [0x14c])"
  let ?exe = "[''packages'', ''zlib_x86-windows'', ''bin'', ''minigzip.exe'']"
  have d: "distinct_names (filesystem ?E)"
    by (simp add: example_defs)
  have dg: "distinct_names (filesystem ?G)"
    by (simp add: example_defs)
  have l: "[''minigzip.exe''] \<noteq> [] \<and> extension_of (last [''minigzip.exe'']) = ''.exe''
      \<and> lookup (filesystem ?E) (packages example_paths @ [spec_dir example_spec] @ [''bin''] @ [''minigzip.exe''])
          = Some (File 1000)"
    by (simp add: example_defs extension_of_def)
  have k: "lookup (filesystem ?E) [''packages'', ''zlib_x86-windows'', ''tools'', ''other.exe''] = Some (File 7)"
    by (simp add: example_defs)
  note t = check_for_exes_iff [OF d, of example_spec example_paths]
  have v: "snd (check_for_exes ?E example_spec example_paths) = ERROR_DETECTED"
    using t [THEN conjunct1] l by blast
  have p: "(no_color, ''    '' @ generic_string (packages example_paths @ [spec_dir example_spec] @ [''bin''] @ [''minigzip.exe'']))
       \<in> set (fst (check_for_exes ?E example_spec example_paths))"
    using t [THEN conjunct2, THEN conjunct1, rule_format, OF l] .
  have g: "generic_string (packages example_paths @ [spec_dir example_spec] @ [''bin''] @ [''minigzip.exe''])
      = ''packages/zlib_x86-windows/bin/minigzip.exe''"
    by (simp add: example_defs generic_string_def)
  from t [THEN conjunct2, THEN conjunct2, THEN conjunct2, THEN conjunct2]
  obtain exes where o: "fst (check_for_exes ?E example_spec example_paths) =
               (if exes = [] then []
                else [(warning, ''The following EXEs were found in /bin and /debug/bin. EXEs are not valid distribution targets.'')]
                     @ print_vector_of_files exes)"
    and m: "\<forall>q. q \<in> set exes \<longleftrightarrow>
                   (\<exists>rest sz. rest \<noteq> [] \<and> extension_of (last rest) = ''.exe''
                      \<and> (q = packages example_paths @ [spec_dir example_spec] @ [''bin''] @ rest
                         \<or> q = packages example_paths @ [spec_dir example_spec] @ [''debug''] @ [''bin''] @ rest)
                      \<and> lookup (filesystem ?E) q = Some (File sz))"
    by blast
  have only: "q = ?exe" if "q \<in> set exes" for q
  proof -
    from that m obtain rest sz where r: "rest \<noteq> []" "extension_of (last rest) = ''.exe''"
      "q = packages example_paths @ [spec_dir example_spec] @ [''bin''] @ rest
       \<or> q = packages example_paths @ [spec_dir example_spec] @ [''debug''] @ [''bin''] @ rest"
      "lookup (filesystem ?E) q = Some (File sz)"
      by blast
    from r(3) show ?thesis
    proof
      assume q: "q = packages example_paths @ [spec_dir example_spec] @ [''bin''] @ rest"
      with r(4) have lk: "lookup (Dir [(''zlib.dll'', File 1000), (''minigzip.exe'', File 1000)]) rest = Some (File sz)"
        by (simp add: example_defs)
      from r(1) obtain c cs where rest: "rest = c # cs" by (cases rest) auto
      with lk have "rest = [''zlib.dll''] \<or> rest = [''minigzip.exe'']"
        by (cases cs) (auto split: if_splits)
      with r(2) have "rest = [''minigzip.exe'']" by (auto simp: extension_of_def)
      with q show ?thesis by (simp add: example_defs)
    next
      assume "q = packages example_paths @ [spec_dir example_spec] @ [''debug''] @ [''bin''] @ rest"
      with r(4) have False by (simp add: example_defs)
      then show ?thesis ..
    qed
  qed
  have ge: "generic_string ?exe = ''packages/zlib_x86-windows/bin/minigzip.exe''"
    by (simp add: generic_string_def)
  have nl: "(no_color, ''    packages/zlib_x86-windows/tools/other.exe'')
       \<notin> set (fst (check_for_exes ?E example_spec example_paths))"
  proof
    assume a: "(no_color, ''    packages/zlib_x86-windows/tools/other.exe'')
       \<in> set (fst (check_for_exes ?E example_spec example_paths))"
    then have "exes \<noteq> []" unfolding o by (auto split: if_splits)
    with a have "(no_color, ''    packages/zlib_x86-windows/tools/other.exe'')
       \<in> set ([(warning, ''The following EXEs were found in /bin and /debug/bin. EXEs are not valid distribution targets.'')]
                     @ print_vector_of_files exes)"
      unfolding o by simp
    then obtain q where "q \<in> set exes"
      "''    packages/zlib_x86-windows/tools/other.exe'' = ''    '' @ generic_string q"
      by (auto simp: print_vector_of_files_def)
    with only [of q] ge show False by simp
  qed
  have n: "\<not> (\<exists>rest sz. rest \<noteq> [] \<and> extension_of (last rest) = ''.exe''
              \<and> (lookup (filesystem ?G) (packages example_paths @ [spec_dir example_spec] @ [''bin''] @ rest) = Some (File sz)
                 \<or> lookup (filesystem ?G) (packages example_paths @ [spec_dir example_spec] @ [''debug''] @ [''bin''] @ rest) = Some (File sz)))"
  proof
    assume "\<exists>rest sz. rest \<noteq> [] \<and> extension_of (last rest) = ''.exe''
              \<and> (lookup (filesystem ?G) (packages example_paths @ [spec_dir example_spec] @ [''bin''] @ rest) = Some (File sz)
                 \<or> lookup (filesystem ?G) (packages example_paths @ [spec_dir example_spec] @ [''debug''] @ [''bin''] @ rest) = Some (File sz))"
    then obtain rest sz where r: "rest \<noteq> []" "extension_of (last rest) = ''.exe''"
      "lookup (Dir [(''zlib.dll'', File 1000)]) rest = Some (File sz)
       \<or> lookup (Dir [(''zlibd.dll'', File 1000)]) rest = Some (File sz)"
      by (auto simp: example_defs)
    from r(1) obtain c cs where rest: "rest = c # cs" by (cases rest) auto
    with r(3) have "rest = [''zlib.dll''] \<or> rest = [''zlibd.dll'']"
      by (cases cs) (auto split: if_splits)
    with r(2) show False by (auto simp: extension_of_def)
  qed
  have s: "check_for_exes ?G example_spec example_paths = ([], SUCCESS)"
    using check_for_exes_iff [OF dg, of example_spec example_paths, THEN conjunct1] n
      check_for_exes_iff [OF dg, of example_spec example_paths, THEN conjunct2, THEN conjunct2, THEN conjunct2,
        THEN conjunct1]
    by blast
  show ?thesis
    using d v p k nl s unfolding g by simp
qed

subsection \<open>The orchestrator\<close>

lemma accumulate_Inr [simp]: "accumulate (Inr c # rs) st = accumulate rs (add_status st c)"
  by (simp add: add_fallible_status_def)

lemma accumulate_Inl [simp]: "accumulate (Inl msg # rs) st = Inl (fst st, msg)"
  by (simp add: add_fallible_status_def)

declare accumulate.simps(2) [simp del]

lemma accumulate_append:
  "accumulate (xs @ ys) st = (case accumulate xs st of Inl e \<Rightarrow> Inl e | Inr st' \<Rightarrow> accumulate ys st')"
proof (induction xs arbitrary: st)
  case Nil
  then show ?case by simp
next
  case (Cons x xs)
  then show ?case by (cases x) simp_all
qed

lemma accumulate_no_exit:
  "\<forall>r \<in> set rs. \<not> isl r \<Longrightarrow>
   accumulate rs st = Inr (fst st @ concat (map (\<lambda>r. fst (projr r)) rs),
                          snd st + sum_list (map (\<lambda>r. status_value (snd (projr r))) rs))"
proof (induction rs arbitrary: st)
  case Nil
  then show ?case by simp
next
  case (Cons r rs)
  then show ?case by (cases r) (simp_all add: add_status_def)
qed

lemma sum_list_status_value:
  "sum_list (map (\<lambda>r. status_value (snd (projr r))) rs) = length (filter (\<lambda>r. snd (projr r) = ERROR_DETECTED) rs)"
proof (induction rs)
  case Nil
  then show ?case by simp
next
  case (Cons r rs)
  then show ?case by (cases "snd (projr r)") simp_all
qed

lemma accumulate_exit:
  "\<forall>r \<in> set pre. \<not> isl r \<Longrightarrow>
   accumulate (pre @ Inl msg # post) st = Inl (fst st @ concat (map (\<lambda>r. fst (projr r)) pre), msg)"
  by (simp add: accumulate_append accumulate_no_exit)

lemma perform_all_checks_accumulate:
  "perform_all_checks env spec paths build_info =
     finish spec paths
       (accumulate (battery env spec paths build_info) ([(no_color, ''-- Performing post-build validation'')], 0))"
proof (cases "check_lib_architecture env (target_architecture spec)
     (recursive_find_files_with_extension_in_dir (filesystem env)
            (packages paths @ [spec_dir spec] @ [''debug''] @ [''lib'']) ''.lib''
      @ recursive_find_files_with_extension_in_dir (filesystem env)
            (packages paths @ [spec_dir spec] @ [''lib'']) ''.lib'')")
  case (Inl msg)
  then show ?thesis
    by (simp add: perform_all_checks_def battery_def checks_before_linkage_def checks_of_linkage_def Let_def add_fallible_status_def finish_def)
next
  case (Inr r)
  show ?thesis
  proof (cases "linkage_type_value_of (library_linkage build_info)")
    case DYNAMIC
    let ?dlls = "recursive_find_files_with_extension_in_dir (filesystem env)
            (packages paths @ [spec_dir spec] @ [''debug''] @ [''bin'']) ''.dll''
        @ recursive_find_files_with_extension_in_dir (filesystem env)
            (packages paths @ [spec_dir spec] @ [''bin'']) ''.dll''"
    from Inr DYNAMIC show ?thesis
      by (cases "check_exports_of_dlls env ?dlls";
          cases "check_uwp_bit_of_dlls env (target_system spec) ?dlls";
          cases "check_dll_architecture env (target_architecture spec) ?dlls")
         (simp_all add: perform_all_checks_def battery_def checks_before_linkage_def checks_of_linkage_def linkage_checks_def Let_def
            add_fallible_status_def finish_def)
  next
    case STATIC
    with Inr show ?thesis
      by (simp add: perform_all_checks_def battery_def checks_before_linkage_def checks_of_linkage_def linkage_checks_def Let_def
          add_fallible_status_def finish_def)
  next
    case UNKNOWN
    have "add_status st (out, ERROR_DETECTED) = (fst st @ out, snd st + 1)" for st out
      by (simp add: add_status_def)
    with Inr UNKNOWN show ?thesis
      by (simp add: perform_all_checks_def battery_def checks_before_linkage_def checks_of_linkage_def linkage_checks_def Let_def
          add_fallible_status_def finish_def)
  qed
qed

lemma silent_checks:
  "snd (check_for_files_in_include_directory env spec paths) = SUCCESS
     \<Longrightarrow> fst (check_for_files_in_include_directory env spec paths) = []"
  "snd (check_for_files_in_debug_include_directory env spec paths) = SUCCESS
     \<Longrightarrow> fst (check_for_files_in_debug_include_directory env spec paths) = []"
  "snd (check_for_files_in_debug_share_directory env spec paths) = SUCCESS
     \<Longrightarrow> fst (check_for_files_in_debug_share_directory env spec paths) = []"
  "snd (check_folder_lib_cmake env spec paths) = SUCCESS
     \<Longrightarrow> fst (check_folder_lib_cmake env spec paths) = []"
  "snd (check_for_misplaced_cmake_files env spec paths) = SUCCESS
     \<Longrightarrow> fst (check_for_misplaced_cmake_files env spec paths) = []"
  "snd (check_folder_debug_lib_cmake env spec paths) = SUCCESS
     \<Longrightarrow> fst (check_folder_debug_lib_cmake env spec paths) = []"
  "snd (check_for_dlls_in_lib_dirs env spec paths) = SUCCESS
     \<Longrightarrow> fst (check_for_dlls_in_lib_dirs env spec paths) = []"
  "snd (check_for_copyright_file env spec paths) = SUCCESS
     \<Longrightarrow> fst (check_for_copyright_file env spec paths) = []"
  "snd (check_for_exes env spec paths) = SUCCESS
     \<Longrightarrow> fst (check_for_exes env spec paths) = []"
  "snd (check_matching_debug_and_release_binaries ds rs) = SUCCESS
     \<Longrightarrow> fst (check_matching_debug_and_release_binaries ds rs) = []"
  "snd (check_no_dlls_present dlls) = SUCCESS \<Longrightarrow> fst (check_no_dlls_present dlls) = []"
  "snd (check_bin_folders_are_not_present_in_static_build env spec paths) = SUCCESS
     \<Longrightarrow> fst (check_bin_folders_are_not_present_in_static_build env spec paths) = []"
  "snd (check_no_empty_folders env dir) = SUCCESS \<Longrightarrow> fst (check_no_empty_folders env dir) = []"
  by (simp_all add: check_for_files_in_include_directory_def check_for_files_in_debug_include_directory_def
      check_for_files_in_debug_share_directory_def check_folder_lib_cmake_def
      check_for_misplaced_cmake_files_def check_folder_debug_lib_cmake_def check_for_dlls_in_lib_dirs_def
      check_for_copyright_file_def check_for_exes_def check_matching_debug_and_release_binaries_def
      check_no_dlls_present_def check_bin_folders_are_not_present_in_static_build_def
      check_no_empty_folders_def Let_def split: if_splits)

lemma silent_fallible_checks:
  "check_lib_architecture env arch files = Inr (out, SUCCESS) \<Longrightarrow> out = []"
  "check_dll_architecture env arch files = Inr (out, SUCCESS) \<Longrightarrow> out = []"
  "check_exports_of_dlls env files = Inr (out, SUCCESS) \<Longrightarrow> out = []"
  "check_uwp_bit_of_dlls env sys files = Inr (out, SUCCESS) \<Longrightarrow> out = []"
  by (auto simp: check_lib_architecture_def check_dll_architecture_def check_exports_of_dlls_def
      check_uwp_bit_of_dlls_def split: sum.splits if_splits)

lemma silent_battery:
  assumes "r \<in> set (battery env spec paths build_info)" "\<not> isl r" "snd (projr r) = SUCCESS"
  shows "fst (projr r) = []"
proof -
  from assms(1) consider "r \<in> set (checks_before_linkage env spec paths)"
    | "r \<in> set (checks_of_linkage env spec paths build_info)"
    | "r = Inr (check_no_empty_folders env (packages paths @ [spec_dir spec]))"
    by (auto simp: battery_def)
  then show ?thesis
  proof cases
    case 1
    with assms(2,3) show ?thesis
      by (cases r) (auto simp: checks_before_linkage_def Let_def silent_checks
          dest: silent_fallible_checks silent_fallible_checks [OF sym])
  next
    case 2
    with assms(2,3) show ?thesis
      by (cases r; cases "linkage_type_value_of (library_linkage build_info)")
         (auto simp: checks_of_linkage_def Let_def silent_checks
            dest: silent_fallible_checks silent_fallible_checks [OF sym])
  next
    case 3
    with assms(3) show ?thesis by (simp add: silent_checks)
  qed
qed

lemma concat_silent:
  assumes "\<forall>r \<in> set rs. \<not> isl r \<and> snd (projr r) = SUCCESS \<longrightarrow> fst (projr r) = []"
    and "\<forall>r \<in> set rs. \<not> isl r"
    and "filter (\<lambda>r. snd (projr r) = ERROR_DETECTED) rs = []"
  shows "concat (map (\<lambda>r. fst (projr r)) rs) = []"
proof -
  have "fst (projr r) = []" if "r \<in> set rs" for r
  proof -
    from assms(3) that have "snd (projr r) \<noteq> ERROR_DETECTED" by (auto simp: filter_empty_conv)
    then have "snd (projr r) = SUCCESS" by (cases "snd (projr r)") simp_all
    with assms(1,2) that show ?thesis by blast
  qed
  then show ?thesis by simp
qed

text \<open>
  C4. When no check of the battery ends the run through \<open>Checks::check_exit\<close>,
  \<open>perform_all_checks\<close> prints the output of every check of the battery in its order,
  whatever the statuses of the checks before it, and its count of errors is the number of
  checks that returned ERROR\_DETECTED. With count 0 it returns, having printed the two
  banner lines and nothing else; otherwise it prints the count and the path of the portfile
  and calls \<open>exit(EXIT_FAILURE)\<close>. When a check ends the run through
  \<open>Checks::check_exit\<close>, the output is that of the checks before it and the run ends
  with the message of that check.
\<close>

theorem perform_all_checks_counts_violations:
  "((\<forall>r \<in> set (battery env spec paths build_info). \<not> isl r) \<longrightarrow>
      perform_all_checks env spec paths build_info =
        (let results = map projr (battery env spec paths build_info);
             error_count = length (filter (\<lambda>c. snd c = ERROR_DETECTED) results);
             printed = (no_color, ''-- Performing post-build validation'') # concat (map fst results)
         in
         if error_count = 0
         then ([(no_color, ''-- Performing post-build validation''),
                (no_color, ''-- Performing post-build validation done'')], returned)
         else (printed @ [(error, ''Found '' @ to_string error_count
                                  @ '' error(s). Please correct the portfile:'' @ [newline]
                                  @ ''    '' @ native (ports paths @ [spec_name spec] @ [''portfile.cmake'']))],
               exit_failure)))
   \<and> (\<forall>pre msg post.
         battery env spec paths build_info = pre @ Inl msg # post \<and> (\<forall>r \<in> set pre. \<not> isl r) \<longrightarrow>
         perform_all_checks env spec paths build_info =
           ((no_color, ''-- Performing post-build validation'') # concat (map (\<lambda>r. fst (projr r)) pre),
            check_exit_failed msg))"
proof (intro conjI impI allI)
  assume a: "\<forall>r \<in> set (battery env spec paths build_info). \<not> isl r"
  let ?rs = "battery env spec paths build_info"
  let ?n = "length (filter (\<lambda>r. snd (projr r) = ERROR_DETECTED) ?rs)"
  have acc: "accumulate ?rs ([(no_color, ''-- Performing post-build validation'')], 0)
     = Inr ((no_color, ''-- Performing post-build validation'') # concat (map (\<lambda>r. fst (projr r)) ?rs), ?n)"
    by (simp add: accumulate_no_exit [OF a] sum_list_status_value)
  have n: "length (filter (\<lambda>c. snd c = ERROR_DETECTED) (map projr ?rs)) = ?n"
    by (simp add: filter_map comp_def)
  have m: "concat (map fst (map projr ?rs)) = concat (map (\<lambda>r. fst (projr r)) ?rs)"
    by (simp add: comp_def)
  have z: "concat (map (\<lambda>r. fst (projr r)) ?rs) = []" if "?n = 0"
  proof (rule concat_silent)
    show "\<forall>r \<in> set ?rs. \<not> isl r \<and> snd (projr r) = SUCCESS \<longrightarrow> fst (projr r) = []"
      using silent_battery by blast
    show "\<forall>r \<in> set ?rs. \<not> isl r" by (rule a)
    from that show "filter (\<lambda>r. snd (projr r) = ERROR_DETECTED) ?rs = []" by simp
  qed
  show "perform_all_checks env spec paths build_info =
        (let results = map projr (battery env spec paths build_info);
             error_count = length (filter (\<lambda>c. snd c = ERROR_DETECTED) results);
             printed = (no_color, ''-- Performing post-build validation'') # concat (map fst results)
         in
         if error_count = 0
         then ([(no_color, ''-- Performing post-build validation''),
                (no_color, ''-- Performing post-build validation done'')], returned)
         else (printed @ [(error, ''Found '' @ to_string error_count
                                  @ '' error(s). Please correct the portfile:'' @ [newline]
                                  @ ''    '' @ native (ports paths @ [spec_name spec] @ [''portfile.cmake'']))],
               exit_failure))"
  proof (cases "?n = 0")
    case True
    with z have "concat (map (\<lambda>r. fst (projr r)) ?rs) = []" by simp
    with True show ?thesis
      unfolding perform_all_checks_accumulate acc Let_def n m by (simp add: finish_def)
  next
    case False
    then show ?thesis
      unfolding perform_all_checks_accumulate acc Let_def n m by (simp add: finish_def)
  qed
next
  fix pre msg post
  assume "battery env spec paths build_info = pre @ Inl msg # post \<and> (\<forall>r \<in> set pre. \<not> isl r)"
  then show "perform_all_checks env spec paths build_info =
           ((no_color, ''-- Performing post-build validation'') # concat (map (\<lambda>r. fst (projr r)) pre),
            check_exit_failed msg)"
    unfolding perform_all_checks_accumulate by (simp add: accumulate_exit finish_def)
qed


text \<open>The checks on the example package; on its variant in which the COFF reader finds
  two machine types in every library, \<open>check_lib_architecture\<close> ends the run.\<close>

lemmas check_defs =
  check_for_files_in_include_directory_def check_for_files_in_debug_include_directory_def
  check_for_files_in_debug_share_directory_def check_folder_lib_cmake_def
  check_for_misplaced_cmake_files_def check_folder_debug_lib_cmake_def check_for_dlls_in_lib_dirs_def
  check_for_copyright_file_def check_for_exes_def check_matching_debug_and_release_binaries_def
  check_lib_architecture_def check_exports_of_dlls_def check_uwp_bit_of_dlls_def check_dll_architecture_def
  check_no_dlls_present_def check_bin_folders_are_not_present_in_static_build_def check_no_empty_folders_def
  get_actual_architecture_def dumpbin_cmd_line_def command_failed_def pe_codes_def

lemma complete_package_libs:
  "recursive_find_files_with_extension_in_dir (filesystem (example_env complete_package coff))
     (packages example_paths @ [spec_dir example_spec] @ [''debug''] @ [''lib'']) ''.lib''
   = [[''packages'', ''zlib_x86-windows'', ''debug'', ''lib'', ''zlibd.lib'']]"
  "recursive_find_files_with_extension_in_dir (filesystem (example_env complete_package coff))
     (packages example_paths @ [spec_dir example_spec] @ [''lib'']) ''.lib''
   = [[''packages'', ''zlib_x86-windows'', ''lib'', ''zlib.lib'']]"
  by (simp_all add: example_defs fs_defs)

lemma complete_package_dlls:
  "recursive_find_files_with_extension_in_dir (filesystem (example_env complete_package coff))
     (packages example_paths @ [spec_dir example_spec] @ [''debug''] @ [''bin'']) ''.dll''
   = [[''packages'', ''zlib_x86-windows'', ''debug'', ''bin'', ''zlibd.dll'']]"
  "recursive_find_files_with_extension_in_dir (filesystem (example_env complete_package coff))
     (packages example_paths @ [spec_dir example_spec] @ [''bin'']) ''.dll''
   = [[''packages'', ''zlib_x86-windows'', ''bin'', ''zlib.dll'']]"
  by (simp_all add: example_defs fs_defs)

lemma complete_package_before:
  "checks_before_linkage (example_env complete_package (\<lambda>file. [0x14c])) example_spec example_paths
   = [Inr ([], SUCCESS), Inr ([], SUCCESS), Inr ([], SUCCESS), Inr ([], SUCCESS), Inr ([], SUCCESS),
      Inr ([], SUCCESS), Inr ([], SUCCESS), Inr ([], SUCCESS), Inr ([], SUCCESS), Inr ([], SUCCESS),
      Inr ([], SUCCESS)]"
  by (simp add: checks_before_linkage_def check_defs example_defs fs_defs)

lemma complete_package_dynamic:
  "checks_of_linkage (example_env complete_package (\<lambda>file. [0x14c])) example_spec example_paths
     \<lparr>library_linkage = ''dynamic'', crt_linkage = ''dynamic''\<rparr>
   = [Inr ([], SUCCESS), Inr ([], SUCCESS), Inr ([], SUCCESS), Inr ([], SUCCESS)]"
  by (simp add: checks_of_linkage_def linkage_type_value_of_def check_defs example_defs fs_defs)

lemma complete_package_static:
  "map (\<lambda>r. (isl r, snd (projr r)))
     (checks_of_linkage (example_env complete_package (\<lambda>file. [0x14c])) example_spec example_paths
        \<lparr>library_linkage = ''static'', crt_linkage = ''dynamic''\<rparr>)
   = [(False, ERROR_DETECTED), (False, ERROR_DETECTED)]"
  by (simp add: checks_of_linkage_def linkage_type_value_of_def check_defs example_defs fs_defs)

lemma complete_package_no_empty_folders:
  "check_no_empty_folders (example_env complete_package coff)
     (packages example_paths @ [spec_dir example_spec]) = ([], SUCCESS)"
  by (simp add: check_defs example_defs fs_defs)

lemma complete_package_accepted:
  "perform_all_checks (example_env complete_package (\<lambda>file. [0x14c])) example_spec example_paths
     \<lparr>library_linkage = ''dynamic'', crt_linkage = ''dynamic''\<rparr>
   = ([(no_color, ''-- Performing post-build validation''),
       (no_color, ''-- Performing post-build validation done'')], returned)"
  unfolding perform_all_checks_accumulate battery_def complete_package_before complete_package_dynamic
    complete_package_no_empty_folders
  by (simp add: add_status_def finish_def)

lemma fat_lib_before:
  "checks_before_linkage (example_env complete_package (\<lambda>file. [0x14c, 0x8664])) example_spec example_paths
   = [Inr ([], SUCCESS), Inr ([], SUCCESS), Inr ([], SUCCESS), Inr ([], SUCCESS), Inr ([], SUCCESS),
      Inr ([], SUCCESS), Inr ([], SUCCESS), Inr ([], SUCCESS), Inr ([], SUCCESS), Inr ([], SUCCESS)]
     @ Inl ''Found more than 1 architecture in file packages/zlib_x86-windows/debug/lib/zlibd.lib'' # []"
  by (simp add: checks_before_linkage_def check_defs example_defs fs_defs generic_string_def)

theorem perform_all_checks_counts_violations_witness:
  "list_all (\<lambda>r. \<not> isl r)
     (battery (example_env complete_package (\<lambda>file. [0x14c])) example_spec example_paths
        \<lparr>library_linkage = ''dynamic'', crt_linkage = ''dynamic''\<rparr>)
   \<and> perform_all_checks (example_env complete_package (\<lambda>file. [0x14c])) example_spec example_paths
        \<lparr>library_linkage = ''dynamic'', crt_linkage = ''dynamic''\<rparr>
      = ([(no_color, ''-- Performing post-build validation''),
          (no_color, ''-- Performing post-build validation done'')], returned)
   \<and> list_all (\<lambda>r. \<not> isl r)
       (battery (example_env complete_package (\<lambda>file. [0x14c])) example_spec example_paths
          \<lparr>library_linkage = ''static'', crt_linkage = ''dynamic''\<rparr>)
   \<and> snd (perform_all_checks (example_env complete_package (\<lambda>file. [0x14c])) example_spec example_paths
          \<lparr>library_linkage = ''static'', crt_linkage = ''dynamic''\<rparr>) = exit_failure
   \<and> last (fst (perform_all_checks (example_env complete_package (\<lambda>file. [0x14c])) example_spec example_paths
          \<lparr>library_linkage = ''static'', crt_linkage = ''dynamic''\<rparr>))
      = (error, ''Found 2 error(s). Please correct the portfile:'' @ [newline]
                @ ''    ports'' @ [backslash] @ ''zlib'' @ [backslash] @ ''portfile.cmake'')
   \<and> perform_all_checks (example_env complete_package (\<lambda>file. [0x14c, 0x8664])) example_spec example_paths
        \<lparr>library_linkage = ''dynamic'', crt_linkage = ''dynamic''\<rparr>
      = ([(no_color, ''-- Performing post-build validation'')],
         check_exit_failed ''Found more than 1 architecture in file packages/zlib_x86-windows/debug/lib/zlibd.lib'')"
proof -
  let ?G = "example_env complete_package (\<lambda>file. [0x14c])"
  let ?F = "example_env complete_package (\<lambda>file. [0x14c, 0x8664])"
  let ?D = "\<lparr>library_linkage = ''dynamic'', crt_linkage = ''dynamic''\<rparr>"
  let ?S = "\<lparr>library_linkage = ''static'', crt_linkage = ''dynamic''\<rparr>"
  have d: "battery ?G example_spec example_paths ?D = replicate 16 (Inr ([], SUCCESS))"
    unfolding battery_def complete_package_before complete_package_dynamic complete_package_no_empty_folders
    by (simp add: numeral_eq_Suc)
  have da: "\<forall>r \<in> set (battery ?G example_spec example_paths ?D). \<not> isl r"
    unfolding d by simp
  have dn: "length (filter (\<lambda>c. snd c = ERROR_DETECTED) (map projr (battery ?G example_spec example_paths ?D))) = 0"
    unfolding d by simp
  have 1: "perform_all_checks ?G example_spec example_paths ?D
      = ([(no_color, ''-- Performing post-build validation''),
          (no_color, ''-- Performing post-build validation done'')], returned)"
    using perform_all_checks_counts_violations [of ?G example_spec example_paths ?D, THEN conjunct1, THEN mp, OF da]
    unfolding Let_def dn by simp
  have s: "map (\<lambda>r. (isl r, snd (projr r))) (battery ?G example_spec example_paths ?S)
     = replicate 11 (False, SUCCESS) @ [(False, ERROR_DETECTED), (False, ERROR_DETECTED), (False, SUCCESS)]"
    unfolding battery_def map_append complete_package_before complete_package_static
      complete_package_no_empty_folders
    by (simp add: numeral_eq_Suc)
  have sa: "\<forall>r \<in> set (battery ?G example_spec example_paths ?S). \<not> isl r"
  proof
    fix r assume "r \<in> set (battery ?G example_spec example_paths ?S)"
    then have "(isl r, snd (projr r)) \<in> set (map (\<lambda>r. (isl r, snd (projr r))) (battery ?G example_spec example_paths ?S))"
      by (simp only: set_map) (rule imageI)
    then show "\<not> isl r" unfolding s by auto
  qed
  have "map snd (map (\<lambda>r. (isl r, snd (projr r))) (battery ?G example_spec example_paths ?S))
     = map snd (map projr (battery ?G example_spec example_paths ?S))"
    by (simp add: comp_def)
  then have "map snd (map projr (battery ?G example_spec example_paths ?S))
     = replicate 11 SUCCESS @ [ERROR_DETECTED, ERROR_DETECTED, SUCCESS]"
    unfolding s by simp
  then have "length (filter (\<lambda>st. st = ERROR_DETECTED) (map snd (map projr (battery ?G example_spec example_paths ?S)))) = 2"
    by simp
  then have sn: "length (filter (\<lambda>c. snd c = ERROR_DETECTED) (map projr (battery ?G example_spec example_paths ?S))) = 2"
    by (simp add: filter_map comp_def)
  note r = perform_all_checks_counts_violations [of ?G example_spec example_paths ?S, THEN conjunct1, THEN mp, OF sa]
  have 2: "snd (perform_all_checks ?G example_spec example_paths ?S) = exit_failure"
    unfolding r Let_def sn by simp
  have 3: "last (fst (perform_all_checks ?G example_spec example_paths ?S))
      = (error, ''Found 2 error(s). Please correct the portfile:'' @ [newline]
                @ ''    ports'' @ [backslash] @ ''zlib'' @ [backslash] @ ''portfile.cmake'')"
    unfolding r Let_def sn
    by (simp add: to_string.simps digit_char_def native_def example_paths_def example_spec_def)
  have f: "battery ?F example_spec example_paths ?D
     = replicate 10 (Inr ([], SUCCESS))
       @ Inl ''Found more than 1 architecture in file packages/zlib_x86-windows/debug/lib/zlibd.lib''
       # (checks_of_linkage ?F example_spec example_paths ?D
          @ [Inr (check_no_empty_folders ?F (packages example_paths @ [spec_dir example_spec]))])"
    unfolding battery_def fat_lib_before by (simp add: numeral_eq_Suc)
  have fa: "\<forall>r \<in> set (replicate 10 (Inr ([], SUCCESS) :: fallible_check_result)). \<not> isl r"
    by simp
  have 4: "perform_all_checks ?F example_spec example_paths ?D
      = ([(no_color, ''-- Performing post-build validation'')],
         check_exit_failed ''Found more than 1 architecture in file packages/zlib_x86-windows/debug/lib/zlibd.lib'')"
    using perform_all_checks_counts_violations [of ?F example_spec example_paths ?D, THEN conjunct2, rule_format,
        OF conjI [OF f fa]]
    by simp
  from da sa have "list_all (\<lambda>r. \<not> isl r) (battery ?G example_spec example_paths ?D)"
    "list_all (\<lambda>r. \<not> isl r) (battery ?G example_spec example_paths ?S)"
    by (simp_all add: list_all_iff)
  with 1 2 3 4 show ?thesis by blast
qed

subsection \<open>The checks of dynamic libraries\<close>

lemma exports_loop_completes:
  "\<forall>dll \<in> set dlls. fst (cmd_execute_and_capture_output env (dumpbin_cmd_line ''/exports'' dll)) = 0 \<Longrightarrow>
   exports_loop env dlls acc =
     Inr (acc @ filter (\<lambda>dll. \<not> string_find (snd (cmd_execute_and_capture_output env (dumpbin_cmd_line ''/exports'' dll)))
                               ''ordinal hint RVA      name'') dlls)"
  by (induction dlls arbitrary: acc) (simp_all add: Let_def)

lemma uwp_loop_completes:
  "\<forall>dll \<in> set dlls. fst (cmd_execute_and_capture_output env (dumpbin_cmd_line ''/headers'' dll)) = 0 \<Longrightarrow>
   uwp_loop env dlls acc =
     Inr (acc @ filter (\<lambda>dll. \<not> string_find (snd (cmd_execute_and_capture_output env (dumpbin_cmd_line ''/headers'' dll)))
                               ''App Container'') dlls)"
  by (induction dlls arbitrary: acc) (simp_all add: Let_def)

text \<open>The switch of \<open>perform_all_checks\<close> in a dynamic build: four checks, three of them
  on the DLLs found below \<open>debug/bin\<close> and \<open>bin\<close>.\<close>

lemma linkage_checks_dynamic:
  assumes "library_linkage build_info = ''dynamic''"
  shows "linkage_checks env spec paths build_info st =
     accumulate
       [Inr (check_matching_debug_and_release_binaries
               (recursive_find_files_with_extension_in_dir (filesystem env)
                  (packages paths @ [spec_dir spec] @ [''debug''] @ [''bin'']) ''.dll'')
               (recursive_find_files_with_extension_in_dir (filesystem env)
                  (packages paths @ [spec_dir spec] @ [''bin'']) ''.dll'')),
        check_exports_of_dlls env
          (recursive_find_files_with_extension_in_dir (filesystem env)
             (packages paths @ [spec_dir spec] @ [''debug''] @ [''bin'']) ''.dll''
           @ recursive_find_files_with_extension_in_dir (filesystem env)
             (packages paths @ [spec_dir spec] @ [''bin'']) ''.dll''),
        check_uwp_bit_of_dlls env (target_system spec)
          (recursive_find_files_with_extension_in_dir (filesystem env)
             (packages paths @ [spec_dir spec] @ [''debug''] @ [''bin'']) ''.dll''
           @ recursive_find_files_with_extension_in_dir (filesystem env)
             (packages paths @ [spec_dir spec] @ [''bin'']) ''.dll''),
        check_dll_architecture env (target_architecture spec)
          (recursive_find_files_with_extension_in_dir (filesystem env)
             (packages paths @ [spec_dir spec] @ [''debug''] @ [''bin'']) ''.dll''
           @ recursive_find_files_with_extension_in_dir (filesystem env)
             (packages paths @ [spec_dir spec] @ [''bin'']) ''.dll'')]
       st"
proof -
  let ?dlls = "recursive_find_files_with_extension_in_dir (filesystem env)
             (packages paths @ [spec_dir spec] @ [''debug''] @ [''bin'']) ''.dll''
           @ recursive_find_files_with_extension_in_dir (filesystem env)
             (packages paths @ [spec_dir spec] @ [''bin'']) ''.dll''"
  from assms have d: "linkage_type_value_of (library_linkage build_info) = DYNAMIC"
    by (simp add: linkage_type_value_of_def)
  show ?thesis
    by (cases "check_exports_of_dlls env ?dlls";
        cases "check_uwp_bit_of_dlls env (target_system spec) ?dlls";
        cases "check_dll_architecture env (target_architecture spec) ?dlls")
       (simp_all add: linkage_checks_def d Let_def add_fallible_status_def)
qed

text \<open>
  C6, as the specification states it, fails: for a triplet whose system is not \<open>uwp\<close>,
  \<open>check_uwp_bit_of_dlls\<close> returns SUCCESS at once. The run on the example package, a
  dynamic build for \<open>windows\<close> whose DLLs lack the marker \<open>App Container\<close>, is accepted.
\<close>

theorem dll_checks_applied_counterexample:
  "recursive_find_files_with_extension_in_dir
     (filesystem (example_env complete_package (\<lambda>file. [0x14c])))
     (packages example_paths @ [spec_dir example_spec] @ [''bin'']) ''.dll''
     = [[''packages'', ''zlib_x86-windows'', ''bin'', ''zlib.dll'']]
   \<and> \<not> string_find
         (snd (cmd_execute_and_capture_output (example_env complete_package (\<lambda>file. [0x14c]))
                 (dumpbin_cmd_line ''/headers'' [''packages'', ''zlib_x86-windows'', ''bin'', ''zlib.dll''])))
         ''App Container''
   \<and> check_uwp_bit_of_dlls (example_env complete_package (\<lambda>file. [0x14c])) (target_system example_spec)
        [[''packages'', ''zlib_x86-windows'', ''debug'', ''bin'', ''zlibd.dll''],
         [''packages'', ''zlib_x86-windows'', ''bin'', ''zlib.dll'']] = Inr ([], SUCCESS)
   \<and> perform_all_checks (example_env complete_package (\<lambda>file. [0x14c])) example_spec example_paths
        \<lparr>library_linkage = ''dynamic'', crt_linkage = ''dynamic''\<rparr>
      = ([(no_color, ''-- Performing post-build validation''),
          (no_color, ''-- Performing post-build validation done'')], returned)"
proof -
  have 1: "\<not> string_find
         (snd (cmd_execute_and_capture_output (example_env complete_package (\<lambda>file. [0x14c]))
                 (dumpbin_cmd_line ''/headers'' [''packages'', ''zlib_x86-windows'', ''bin'', ''zlib.dll''])))
         ''App Container''"
    by (simp add: example_env_def)
  have 2: "check_uwp_bit_of_dlls (example_env complete_package (\<lambda>file. [0x14c])) (target_system example_spec)
        [[''packages'', ''zlib_x86-windows'', ''debug'', ''bin'', ''zlibd.dll''],
         [''packages'', ''zlib_x86-windows'', ''bin'', ''zlib.dll'']] = Inr ([], SUCCESS)"
    by (simp add: check_uwp_bit_of_dlls_def example_spec_def)
  from complete_package_dlls(2) 1 2 complete_package_accepted show ?thesis by blast
qed

text \<open>
  C6, amended. \<open>check_uwp_bit_of_dlls\<close> returns SUCCESS without running any command
  when the system of the triplet is not \<open>uwp\<close>. For the system \<open>uwp\<close>, and for
  \<open>check_exports_of_dlls\<close> whatever the system, when every dumpbin command exits with 0
  the check returns ERROR\_DETECTED exactly when the output for some DLL of the list lacks
  the marker (\<open>App Container\<close>, respectively the heading of the export table), and every
  such DLL is listed in the output. In a dynamic build the switch of \<open>perform_all_checks\<close>
  runs both checks on the DLLs found below \<open>debug/bin\<close> and \<open>bin\<close>, the second one with
  the system of the triplet.
\<close>

theorem dll_checks_applied:
  "(expected_system_name \<noteq> ''uwp'' \<longrightarrow> check_uwp_bit_of_dlls env expected_system_name dlls = Inr ([], SUCCESS))
   \<and> ((\<forall>dll \<in> set dlls. fst (cmd_execute_and_capture_output env (dumpbin_cmd_line ''/headers'' dll)) = 0) \<longrightarrow>
        (\<exists>out st. check_uwp_bit_of_dlls env ''uwp'' dlls = Inr (out, st)
           \<and> (st = ERROR_DETECTED \<longleftrightarrow>
                (\<exists>dll \<in> set dlls. \<not> string_find (snd (cmd_execute_and_capture_output env (dumpbin_cmd_line ''/headers'' dll)))
                                       ''App Container''))
           \<and> (\<forall>dll \<in> set dlls. \<not> string_find (snd (cmd_execute_and_capture_output env (dumpbin_cmd_line ''/headers'' dll)))
                                       ''App Container''
                \<longrightarrow> (no_color, ''    '' @ generic_string dll) \<in> set out)))
   \<and> ((\<forall>dll \<in> set dlls. fst (cmd_execute_and_capture_output env (dumpbin_cmd_line ''/exports'' dll)) = 0) \<longrightarrow>
        (\<exists>out st. check_exports_of_dlls env dlls = Inr (out, st)
           \<and> (st = ERROR_DETECTED \<longleftrightarrow>
                (\<exists>dll \<in> set dlls. \<not> string_find (snd (cmd_execute_and_capture_output env (dumpbin_cmd_line ''/exports'' dll)))
                                       ''ordinal hint RVA      name''))
           \<and> (\<forall>dll \<in> set dlls. \<not> string_find (snd (cmd_execute_and_capture_output env (dumpbin_cmd_line ''/exports'' dll)))
                                       ''ordinal hint RVA      name''
                \<longrightarrow> (no_color, ''    '' @ generic_string dll) \<in> set out)))
   \<and> (library_linkage build_info = ''dynamic'' \<longrightarrow>
        linkage_checks env spec paths build_info st =
     accumulate
       [Inr (check_matching_debug_and_release_binaries
               (recursive_find_files_with_extension_in_dir (filesystem env)
                  (packages paths @ [spec_dir spec] @ [''debug''] @ [''bin'']) ''.dll'')
               (recursive_find_files_with_extension_in_dir (filesystem env)
                  (packages paths @ [spec_dir spec] @ [''bin'']) ''.dll'')),
        check_exports_of_dlls env
          (recursive_find_files_with_extension_in_dir (filesystem env)
             (packages paths @ [spec_dir spec] @ [''debug''] @ [''bin'']) ''.dll''
           @ recursive_find_files_with_extension_in_dir (filesystem env)
             (packages paths @ [spec_dir spec] @ [''bin'']) ''.dll''),
        check_uwp_bit_of_dlls env (target_system spec)
          (recursive_find_files_with_extension_in_dir (filesystem env)
             (packages paths @ [spec_dir spec] @ [''debug''] @ [''bin'']) ''.dll''
           @ recursive_find_files_with_extension_in_dir (filesystem env)
             (packages paths @ [spec_dir spec] @ [''bin'']) ''.dll''),
        check_dll_architecture env (target_architecture spec)
          (recursive_find_files_with_extension_in_dir (filesystem env)
             (packages paths @ [spec_dir spec] @ [''debug''] @ [''bin'']) ''.dll''
           @ recursive_find_files_with_extension_in_dir (filesystem env)
             (packages paths @ [spec_dir spec] @ [''bin'']) ''.dll'')]
       st)"
proof (intro conjI impI)
  assume "library_linkage build_info = ''dynamic''"
  then show "linkage_checks env spec paths build_info st =
     accumulate
       [Inr (check_matching_debug_and_release_binaries
               (recursive_find_files_with_extension_in_dir (filesystem env)
                  (packages paths @ [spec_dir spec] @ [''debug''] @ [''bin'']) ''.dll'')
               (recursive_find_files_with_extension_in_dir (filesystem env)
                  (packages paths @ [spec_dir spec] @ [''bin'']) ''.dll'')),
        check_exports_of_dlls env
          (recursive_find_files_with_extension_in_dir (filesystem env)
             (packages paths @ [spec_dir spec] @ [''debug''] @ [''bin'']) ''.dll''
           @ recursive_find_files_with_extension_in_dir (filesystem env)
             (packages paths @ [spec_dir spec] @ [''bin'']) ''.dll''),
        check_uwp_bit_of_dlls env (target_system spec)
          (recursive_find_files_with_extension_in_dir (filesystem env)
             (packages paths @ [spec_dir spec] @ [''debug''] @ [''bin'']) ''.dll''
           @ recursive_find_files_with_extension_in_dir (filesystem env)
             (packages paths @ [spec_dir spec] @ [''bin'']) ''.dll''),
        check_dll_architecture env (target_architecture spec)
          (recursive_find_files_with_extension_in_dir (filesystem env)
             (packages paths @ [spec_dir spec] @ [''debug''] @ [''bin'']) ''.dll''
           @ recursive_find_files_with_extension_in_dir (filesystem env)
             (packages paths @ [spec_dir spec] @ [''bin'']) ''.dll'')]
       st"
    by (rule linkage_checks_dynamic)
next
  assume "expected_system_name \<noteq> ''uwp''"
  then show "check_uwp_bit_of_dlls env expected_system_name dlls = Inr ([], SUCCESS)"
    by (simp add: check_uwp_bit_of_dlls_def)
next
  assume a: "\<forall>dll \<in> set dlls. fst (cmd_execute_and_capture_output env (dumpbin_cmd_line ''/headers'' dll)) = 0"
  define bad where "bad = filter (\<lambda>dll. \<not> string_find (snd (cmd_execute_and_capture_output env (dumpbin_cmd_line ''/headers'' dll)))
                               ''App Container'') dlls"
  have loop: "uwp_loop env dlls [] = Inr bad"
    using uwp_loop_completes [OF a, of "[]"] by (simp add: bad_def)
  have bad: "dll \<in> set bad \<longleftrightarrow> dll \<in> set dlls \<and> \<not> string_find (snd (cmd_execute_and_capture_output env (dumpbin_cmd_line ''/headers'' dll)))
                               ''App Container''" for dll
    by (simp add: bad_def)
  show "\<exists>out st. check_uwp_bit_of_dlls env ''uwp'' dlls = Inr (out, st)
           \<and> (st = ERROR_DETECTED \<longleftrightarrow>
                (\<exists>dll \<in> set dlls. \<not> string_find (snd (cmd_execute_and_capture_output env (dumpbin_cmd_line ''/headers'' dll)))
                                       ''App Container''))
           \<and> (\<forall>dll \<in> set dlls. \<not> string_find (snd (cmd_execute_and_capture_output env (dumpbin_cmd_line ''/headers'' dll)))
                                       ''App Container''
                \<longrightarrow> (no_color, ''    '' @ generic_string dll) \<in> set out)"
  proof (cases "bad = []")
    case True
    then have "check_uwp_bit_of_dlls env ''uwp'' dlls = Inr ([], SUCCESS)"
      by (simp add: check_uwp_bit_of_dlls_def loop)
    moreover from True bad have "\<not> (\<exists>dll \<in> set dlls. \<not> string_find (snd (cmd_execute_and_capture_output env (dumpbin_cmd_line ''/headers'' dll)))
                                       ''App Container'')" by auto
    ultimately show ?thesis by auto
  next
    case False
    then have r: "check_uwp_bit_of_dlls env ''uwp'' dlls =
       Inr ([(warning, ''The following DLLs do not have the App Container bit set:'')]
                      @ print_vector_of_files bad
                      @ [(warning, ''This bit is required for Windows Store apps.'')], ERROR_DETECTED)"
      by (simp add: check_uwp_bit_of_dlls_def loop)
    from False obtain b where "b \<in> set bad" by (cases bad) auto
    with bad have e: "\<exists>dll \<in> set dlls. \<not> string_find (snd (cmd_execute_and_capture_output env (dumpbin_cmd_line ''/headers'' dll)))
                                       ''App Container''" by blast
    have "\<forall>dll \<in> set dlls. \<not> string_find (snd (cmd_execute_and_capture_output env (dumpbin_cmd_line ''/headers'' dll)))
                                       ''App Container''
                \<longrightarrow> (no_color, ''    '' @ generic_string dll) \<in> set ([(warning, ''The following DLLs do not have the App Container bit set:'')]
                      @ print_vector_of_files bad
                      @ [(warning, ''This bit is required for Windows Store apps.'')])"
      using bad by (auto simp: print_vector_of_files_def)
    with r e show ?thesis by blast
  qed
next
  assume a: "\<forall>dll \<in> set dlls. fst (cmd_execute_and_capture_output env (dumpbin_cmd_line ''/exports'' dll)) = 0"
  define bad where "bad = filter (\<lambda>dll. \<not> string_find (snd (cmd_execute_and_capture_output env (dumpbin_cmd_line ''/exports'' dll)))
                               ''ordinal hint RVA      name'') dlls"
  have loop: "exports_loop env dlls [] = Inr bad"
    using exports_loop_completes [OF a, of "[]"] by (simp add: bad_def)
  have bad: "dll \<in> set bad \<longleftrightarrow> dll \<in> set dlls \<and> \<not> string_find (snd (cmd_execute_and_capture_output env (dumpbin_cmd_line ''/exports'' dll)))
                               ''ordinal hint RVA      name''" for dll
    by (simp add: bad_def)
  show "\<exists>out st. check_exports_of_dlls env dlls = Inr (out, st)
           \<and> (st = ERROR_DETECTED \<longleftrightarrow>
                (\<exists>dll \<in> set dlls. \<not> string_find (snd (cmd_execute_and_capture_output env (dumpbin_cmd_line ''/exports'' dll)))
                                       ''ordinal hint RVA      name''))
           \<and> (\<forall>dll \<in> set dlls. \<not> string_find (snd (cmd_execute_and_capture_output env (dumpbin_cmd_line ''/exports'' dll)))
                                       ''ordinal hint RVA      name''
                \<longrightarrow> (no_color, ''    '' @ generic_string dll) \<in> set out)"
  proof (cases "bad = []")
    case True
    then have "check_exports_of_dlls env dlls = Inr ([], SUCCESS)"
      by (simp add: check_exports_of_dlls_def loop)
    moreover from True bad have "\<not> (\<exists>dll \<in> set dlls. \<not> string_find (snd (cmd_execute_and_capture_output env (dumpbin_cmd_line ''/exports'' dll)))
                                       ''ordinal hint RVA      name'')" by auto
    ultimately show ?thesis by auto
  next
    case False
    then have r: "check_exports_of_dlls env dlls =
       Inr ([(warning, ''The following DLLs have no exports:'')]
                    @ print_vector_of_files bad
                    @ [(warning, ''DLLs without any exports are likely a bug in the build script.'')], ERROR_DETECTED)"
      by (simp add: check_exports_of_dlls_def loop)
    from False obtain b where "b \<in> set bad" by (cases bad) auto
    with bad have e: "\<exists>dll \<in> set dlls. \<not> string_find (snd (cmd_execute_and_capture_output env (dumpbin_cmd_line ''/exports'' dll)))
                                       ''ordinal hint RVA      name''" by blast
    have "\<forall>dll \<in> set dlls. \<not> string_find (snd (cmd_execute_and_capture_output env (dumpbin_cmd_line ''/exports'' dll)))
                                       ''ordinal hint RVA      name''
                \<longrightarrow> (no_color, ''    '' @ generic_string dll) \<in> set ([(warning, ''The following DLLs have no exports:'')]
                    @ print_vector_of_files bad
                    @ [(warning, ''DLLs without any exports are likely a bug in the build script.'')])"
      using bad by (auto simp: print_vector_of_files_def)
    with r e show ?thesis by blast
  qed
qed

theorem dll_checks_applied_witness:
  "check_uwp_bit_of_dlls (example_env complete_package (\<lambda>file. [0x14c])) ''windows''
      [[''packages'', ''zlib_x86-windows'', ''bin'', ''zlib.dll'']] = Inr ([], SUCCESS)
   \<and> (\<exists>out. check_uwp_bit_of_dlls (example_env complete_package (\<lambda>file. [0x14c])) ''uwp''
               [[''packages'', ''zlib_x86-windows'', ''bin'', ''zlib.dll'']] = Inr (out, ERROR_DETECTED)
             \<and> (no_color, ''    packages/zlib_x86-windows/bin/zlib.dll'') \<in> set out)
   \<and> (\<exists>out. check_exports_of_dlls (example_env complete_package (\<lambda>file. [0x14c]))
               [[''packages'', ''zlib_x86-windows'', ''bin'', ''zlib.dll'']] = Inr (out, SUCCESS))"
proof -
  let ?E = "example_env complete_package (\<lambda>file. [0x14c])"
  let ?dll = "[''packages'', ''zlib_x86-windows'', ''bin'', ''zlib.dll'']"
  note t = dll_checks_applied [of "''windows''" ?E "[?dll]"]
  have w: "''windows'' \<noteq> ''uwp''" by simp
  have h: "\<forall>dll \<in> set [?dll]. fst (cmd_execute_and_capture_output ?E (dumpbin_cmd_line ''/headers'' dll)) = 0"
    by (simp add: example_env_def)
  have x: "\<forall>dll \<in> set [?dll]. fst (cmd_execute_and_capture_output ?E (dumpbin_cmd_line ''/exports'' dll)) = 0"
    by (simp add: example_env_def)
  have a: "\<not> string_find (snd (cmd_execute_and_capture_output ?E (dumpbin_cmd_line ''/headers'' ?dll))) ''App Container''"
    by (simp add: example_env_def)
  have e: "string_find (snd (cmd_execute_and_capture_output ?E (dumpbin_cmd_line ''/exports'' ?dll)))
             ''ordinal hint RVA      name''"
    by (simp add: example_env_def)
  have g: "generic_string ?dll = ''packages/zlib_x86-windows/bin/zlib.dll''"
    by (simp add: generic_string_def)
  from t [THEN conjunct1, THEN mp, OF w]
  have 1: "check_uwp_bit_of_dlls ?E ''windows'' [?dll] = Inr ([], SUCCESS)" .
  from t [THEN conjunct2, THEN conjunct1, THEN mp, OF h] obtain out st where
    o: "check_uwp_bit_of_dlls ?E ''uwp'' [?dll] = Inr (out, st)"
    and s: "st = ERROR_DETECTED \<longleftrightarrow>
       (\<exists>dll \<in> set [?dll]. \<not> string_find (snd (cmd_execute_and_capture_output ?E (dumpbin_cmd_line ''/headers'' dll))) ''App Container'')"
    and l: "\<forall>dll \<in> set [?dll]. \<not> string_find (snd (cmd_execute_and_capture_output ?E (dumpbin_cmd_line ''/headers'' dll))) ''App Container''
       \<longrightarrow> (no_color, ''    '' @ generic_string dll) \<in> set out"
    by blast
  from s a have "st = ERROR_DETECTED" by simp
  moreover from l a have "(no_color, ''    '' @ generic_string ?dll) \<in> set out" by simp
  ultimately have 2: "\<exists>out. check_uwp_bit_of_dlls ?E ''uwp'' [?dll] = Inr (out, ERROR_DETECTED)
             \<and> (no_color, ''    packages/zlib_x86-windows/bin/zlib.dll'') \<in> set out"
    using o unfolding g by auto
  from t [THEN conjunct2, THEN conjunct2, THEN conjunct1, THEN mp, OF x] obtain out' st' where
    o': "check_exports_of_dlls ?E [?dll] = Inr (out', st')"
    and s': "st' = ERROR_DETECTED \<longleftrightarrow>
       (\<exists>dll \<in> set [?dll]. \<not> string_find (snd (cmd_execute_and_capture_output ?E (dumpbin_cmd_line ''/exports'' dll)))
           ''ordinal hint RVA      name'')"
    by blast
  from s' e have "st' \<noteq> ERROR_DETECTED" by simp
  then have "st' = SUCCESS" by (cases st') simp_all
  with o' have 3: "\<exists>out. check_exports_of_dlls ?E [?dll] = Inr (out, SUCCESS)" by blast
  from 1 2 3 show ?thesis by blast
qed

subsection \<open>An unrecognized linkage\<close>

text \<open>
  C8. When \<open>library_linkage\<close> is neither \<open>static\<close> nor \<open>dynamic\<close>, the switch adds exactly
  1 to the count of errors, prints a warning and does not end the run. If the checks before
  the switch did not end it either, the run goes on with the check for empty folders and then
  ends with \<open>exit(EXIT_FAILURE)\<close> after printing the count, which is 1 more than the number
  of violations of the other checks; it does not end through \<open>Checks::check_exit\<close>.
\<close>

theorem unknown_library_linkage_is_one_violation:
  assumes "library_linkage build_info \<noteq> ''static''" "library_linkage build_info \<noteq> ''dynamic''"
  shows "linkage_checks env spec paths build_info st =
           Inr (fst st @ [(warning, ''Unknown library_linkage architecture: [ '' @ library_linkage build_info @ '' ]'')],
                snd st + 1)
       \<and> ((\<forall>r \<in> set (checks_before_linkage env spec paths). \<not> isl r) \<longrightarrow>
            perform_all_checks env spec paths build_info =
              (let before = map projr (checks_before_linkage env spec paths);
                   last_check = check_no_empty_folders env (packages paths @ [spec_dir spec]);
                   others = length (filter (\<lambda>c. snd c = ERROR_DETECTED) (before @ [last_check]))
               in ((no_color, ''-- Performing post-build validation'') # concat (map fst before)
                   @ [(warning, ''Unknown library_linkage architecture: [ '' @ library_linkage build_info @ '' ]'')]
                   @ fst last_check
                   @ [(error, ''Found '' @ to_string (others + 1)
                              @ '' error(s). Please correct the portfile:'' @ [newline]
                              @ ''    '' @ native (ports paths @ [spec_name spec] @ [''portfile.cmake'']))],
                   exit_failure)))"
proof (intro conjI impI)
  from assms have u: "linkage_type_value_of (library_linkage build_info) = UNKNOWN"
    by (simp add: linkage_type_value_of_def)
  then show "linkage_checks env spec paths build_info st =
           Inr (fst st @ [(warning, ''Unknown library_linkage architecture: [ '' @ library_linkage build_info @ '' ]'')],
                snd st + 1)"
    by (simp add: linkage_checks_def)
  assume a: "\<forall>r \<in> set (checks_before_linkage env spec paths). \<not> isl r"
  let ?w = "(warning, ''Unknown library_linkage architecture: [ '' @ library_linkage build_info @ '' ]'')"
  let ?last = "check_no_empty_folders env (packages paths @ [spec_dir spec])"
  let ?before = "checks_before_linkage env spec paths"
  have b: "battery env spec paths build_info = ?before @ [Inr ([?w], ERROR_DETECTED), Inr ?last]"
    using u by (simp add: battery_def checks_of_linkage_def)
  have all: "\<forall>r \<in> set (?before @ [Inr ([?w], ERROR_DETECTED), Inr ?last]). \<not> isl r"
    using a by simp
  have n: "length (filter (\<lambda>r. snd (projr r) = ERROR_DETECTED) ?before)
           = length (filter (\<lambda>c. snd c = ERROR_DETECTED) (map projr ?before))"
    by (simp add: filter_map comp_def)
  have m: "concat (map (\<lambda>r. fst (projr r)) ?before) = concat (map fst (map projr ?before))"
    by (simp add: comp_def)
  have acc: "accumulate (battery env spec paths build_info) ([(no_color, ''-- Performing post-build validation'')], 0)
     = Inr ((no_color, ''-- Performing post-build validation'') # concat (map fst (map projr ?before)) @ [?w] @ fst ?last,
            length (filter (\<lambda>c. snd c = ERROR_DETECTED) (map projr ?before @ [?last])) + 1)"
    unfolding b accumulate_no_exit [OF all] sum_list_status_value
    by (simp add: n m)
  show "perform_all_checks env spec paths build_info =
              (let before = map projr (checks_before_linkage env spec paths);
                   last_check = check_no_empty_folders env (packages paths @ [spec_dir spec]);
                   others = length (filter (\<lambda>c. snd c = ERROR_DETECTED) (before @ [last_check]))
               in ((no_color, ''-- Performing post-build validation'') # concat (map fst before)
                   @ [(warning, ''Unknown library_linkage architecture: [ '' @ library_linkage build_info @ '' ]'')]
                   @ fst last_check
                   @ [(error, ''Found '' @ to_string (others + 1)
                              @ '' error(s). Please correct the portfile:'' @ [newline]
                              @ ''    '' @ native (ports paths @ [spec_name spec] @ [''portfile.cmake'']))],
                   exit_failure))"
    unfolding perform_all_checks_accumulate acc Let_def by (simp add: finish_def)
qed

theorem unknown_library_linkage_is_one_violation_witness:
  "library_linkage \<lparr>library_linkage = ''shared'', crt_linkage = ''dynamic''\<rparr> \<noteq> ''static''
   \<and> library_linkage \<lparr>library_linkage = ''shared'', crt_linkage = ''dynamic''\<rparr> \<noteq> ''dynamic''
   \<and> linkage_checks (example_env complete_package (\<lambda>file. [0x14c])) example_spec example_paths
        \<lparr>library_linkage = ''shared'', crt_linkage = ''dynamic''\<rparr> ([], 3)
      = Inr ([(warning, ''Unknown library_linkage architecture: [ shared ]'')], 4)
   \<and> perform_all_checks (example_env complete_package (\<lambda>file. [0x14c])) example_spec example_paths
        \<lparr>library_linkage = ''shared'', crt_linkage = ''dynamic''\<rparr>
      = ([(no_color, ''-- Performing post-build validation''),
          (warning, ''Unknown library_linkage architecture: [ shared ]''),
          (error, ''Found 1 error(s). Please correct the portfile:'' @ [newline]
                  @ ''    ports'' @ [backslash] @ ''zlib'' @ [backslash] @ ''portfile.cmake'')],
         exit_failure)"
proof -
  let ?G = "example_env complete_package (\<lambda>file. [0x14c])"
  let ?B = "\<lparr>library_linkage = ''shared'', crt_linkage = ''dynamic''\<rparr>"
  have n1: "library_linkage ?B \<noteq> ''static''" and n2: "library_linkage ?B \<noteq> ''dynamic''"
    by simp_all
  note t = unknown_library_linkage_is_one_violation [OF n1 n2, of ?G example_spec example_paths]
  have a: "\<forall>r \<in> set (checks_before_linkage ?G example_spec example_paths). \<not> isl r"
    unfolding complete_package_before by simp
  have 1: "linkage_checks ?G example_spec example_paths ?B ([], 3)
      = Inr ([(warning, ''Unknown library_linkage architecture: [ shared ]'')], 4)"
    using t [of "([], 3)", THEN conjunct1] by simp
  have 2: "perform_all_checks ?G example_spec example_paths ?B
      = ([(no_color, ''-- Performing post-build validation''),
          (warning, ''Unknown library_linkage architecture: [ shared ]''),
          (error, ''Found 1 error(s). Please correct the portfile:'' @ [newline]
                  @ ''    ports'' @ [backslash] @ ''zlib'' @ [backslash] @ ''portfile.cmake'')],
         exit_failure)"
    unfolding t [of "([], 0)", THEN conjunct2, THEN mp, OF a] Let_def complete_package_before
      complete_package_no_empty_folders
    by (simp add: to_string.simps digit_char_def native_def example_paths_def example_spec_def)
  from n1 n2 1 2 show ?thesis by blast
qed

subsection \<open>Libraries with more than one machine type\<close>

lemma lib_architecture_loop_exits:
  "\<exists>file \<in> set files. length (read_lib env file) \<noteq> 1 \<Longrightarrow>
   \<exists>msg. lib_architecture_loop env expected_architecture files acc = Inl msg"
proof (induction files arbitrary: acc)
  case Nil
  then show ?case by simp
next
  case (Cons f fs)
  show ?case
  proof (cases "extension f \<noteq> ''.lib'' \<or> length (read_lib env f) \<noteq> 1")
    case True
    then show ?thesis by auto
  next
    case False
    with Cons.prems have "\<exists>file \<in> set fs. length (read_lib env file) \<noteq> 1" by auto
    from Cons.IH [OF this] False show ?thesis by (simp add: Let_def)
  qed
qed

lemma lib_architecture_loop_returns:
  "lib_architecture_loop env expected_architecture files acc = Inr r \<Longrightarrow>
   \<forall>file \<in> set files. extension file = ''.lib'' \<and> length (read_lib env file) = 1"
proof (induction files arbitrary: acc)
  case Nil
  then show ?case by simp
next
  case (Cons f fs)
  then show ?case by (auto simp: Let_def split: if_splits)
qed

lemma lib_architecture_loop_first:
  "\<forall>f \<in> set pre. extension f = ''.lib'' \<and> length (read_lib env f) = 1 \<Longrightarrow>
   extension file = ''.lib'' \<Longrightarrow> length (read_lib env file) \<noteq> 1 \<Longrightarrow>
   lib_architecture_loop env expected_architecture (pre @ file # post) acc
     = Inl (''Found more than 1 architecture in file '' @ generic_string file)"
  by (induction pre arbitrary: acc) (simp_all add: Let_def)

text \<open>
  C9. If the COFF reader reports more than one machine type for some library of the list,
  \<open>check_lib_architecture\<close> does not return a status: it ends the run through
  \<open>Checks::check_exit\<close>, with the message about more than one architecture when that
  library is the first one that fails a check. When it does return, every library of the
  list had exactly one machine type. A run of \<open>perform_all_checks\<close> in which some library
  below \<open>debug/lib\<close> or \<open>lib\<close> has more than one machine type ends that way, without a
  count of errors.
\<close>

theorem check_lib_architecture_more_than_one_machine_type:
  "((\<exists>file \<in> set files. length (read_lib env file) > 1) \<longrightarrow>
       (\<exists>msg. check_lib_architecture env expected_architecture files = Inl msg))
   \<and> ((\<forall>f \<in> set pre. extension f = ''.lib'' \<and> length (read_lib env f) = 1)
        \<and> extension file = ''.lib'' \<and> length (read_lib env file) > 1 \<longrightarrow>
       check_lib_architecture env expected_architecture (pre @ file # post)
         = Inl (''Found more than 1 architecture in file '' @ generic_string file))
   \<and> (\<forall>r. check_lib_architecture env expected_architecture files = Inr r \<longrightarrow>
         (\<forall>file \<in> set files. length (read_lib env file) = 1))
   \<and> ((\<exists>file \<in> set (recursive_find_files_with_extension_in_dir (filesystem env)
                        (packages paths @ [spec_dir spec] @ [''debug''] @ [''lib'']) ''.lib''
                      @ recursive_find_files_with_extension_in_dir (filesystem env)
                        (packages paths @ [spec_dir spec] @ [''lib'']) ''.lib'').
          length (read_lib env file) > 1) \<longrightarrow>
       (\<exists>out msg. perform_all_checks env spec paths build_info = (out, check_exit_failed msg)))"
proof (intro conjI impI allI)
  assume "\<exists>file \<in> set files. length (read_lib env file) > 1"
  then obtain f where "f \<in> set files" "length (read_lib env f) > 1" by blast
  then have "f \<in> set files" "length (read_lib env f) \<noteq> 1" by simp_all
  then have "\<exists>file \<in> set files. length (read_lib env file) \<noteq> 1" by blast
  from lib_architecture_loop_exits [OF this, of expected_architecture "[]"]
  show "\<exists>msg. check_lib_architecture env expected_architecture files = Inl msg"
    by (auto simp: check_lib_architecture_def)
next
  assume "(\<forall>f \<in> set pre. extension f = ''.lib'' \<and> length (read_lib env f) = 1)
        \<and> extension file = ''.lib'' \<and> length (read_lib env file) > 1"
  then have "lib_architecture_loop env expected_architecture (pre @ file # post) []
     = Inl (''Found more than 1 architecture in file '' @ generic_string file)"
    by (intro lib_architecture_loop_first) auto
  then show "check_lib_architecture env expected_architecture (pre @ file # post)
         = Inl (''Found more than 1 architecture in file '' @ generic_string file)"
    by (simp add: check_lib_architecture_def)
next
  fix r
  assume "check_lib_architecture env expected_architecture files = Inr r"
  then obtain b where "lib_architecture_loop env expected_architecture files [] = Inr b"
    by (auto simp: check_lib_architecture_def split: sum.splits)
  from lib_architecture_loop_returns [OF this]
  show "\<forall>file \<in> set files. length (read_lib env file) = 1" by blast
next
  let ?libs = "recursive_find_files_with_extension_in_dir (filesystem env)
                        (packages paths @ [spec_dir spec] @ [''debug''] @ [''lib'']) ''.lib''
                      @ recursive_find_files_with_extension_in_dir (filesystem env)
                        (packages paths @ [spec_dir spec] @ [''lib'']) ''.lib''"
  assume "\<exists>file \<in> set ?libs. length (read_lib env file) > 1"
  then obtain f where "f \<in> set ?libs" "length (read_lib env f) > 1" by blast
  then have "f \<in> set ?libs" "length (read_lib env f) \<noteq> 1" by simp_all
  then have "\<exists>file \<in> set ?libs. length (read_lib env file) \<noteq> 1" by blast
  from lib_architecture_loop_exits [OF this, of "target_architecture spec" "[]"]
  obtain msg where "check_lib_architecture env (target_architecture spec) ?libs = Inl msg"
    by (auto simp: check_lib_architecture_def)
  then have "snd (perform_all_checks env spec paths build_info) = check_exit_failed msg"
    by (simp add: perform_all_checks_def Let_def add_fallible_status_def)
  then show "\<exists>out msg. perform_all_checks env spec paths build_info = (out, check_exit_failed msg)"
    by (metis prod.collapse)
qed

theorem check_lib_architecture_more_than_one_machine_type_witness:
  "length (read_lib (example_env complete_package (\<lambda>file. [0x14c, 0x8664]))
             [''packages'', ''zlib_x86-windows'', ''debug'', ''lib'', ''zlibd.lib'']) > 1
   \<and> check_lib_architecture (example_env complete_package (\<lambda>file. [0x14c, 0x8664])) ''x86''
        [[''packages'', ''zlib_x86-windows'', ''debug'', ''lib'', ''zlibd.lib''],
         [''packages'', ''zlib_x86-windows'', ''lib'', ''zlib.lib'']]
      = Inl ''Found more than 1 architecture in file packages/zlib_x86-windows/debug/lib/zlibd.lib''
   \<and> (\<exists>out msg. perform_all_checks (example_env complete_package (\<lambda>file. [0x14c, 0x8664]))
                    example_spec example_paths \<lparr>library_linkage = ''dynamic'', crt_linkage = ''dynamic''\<rparr>
                  = (out, check_exit_failed msg))"
proof -
  let ?F = "example_env complete_package (\<lambda>file. [0x14c, 0x8664])"
  let ?D = "\<lparr>library_linkage = ''dynamic'', crt_linkage = ''dynamic''\<rparr>"
  let ?dl = "[''packages'', ''zlib_x86-windows'', ''debug'', ''lib'', ''zlibd.lib'']"
  let ?rl = "[''packages'', ''zlib_x86-windows'', ''lib'', ''zlib.lib'']"
  have l: "length (read_lib ?F ?dl) > 1"
    by (simp add: example_env_def)
  have h2: "(\<forall>f \<in> set []. extension f = ''.lib'' \<and> length (read_lib ?F f) = 1)
        \<and> extension ?dl = ''.lib'' \<and> length (read_lib ?F ?dl) > 1"
    by (simp add: example_env_def extension_def extension_of_def filename_def)
  have g: "generic_string ?dl = ''packages/zlib_x86-windows/debug/lib/zlibd.lib''"
    by (simp add: generic_string_def)
  have 1: "check_lib_architecture ?F ''x86'' [?dl, ?rl]
      = Inl ''Found more than 1 architecture in file packages/zlib_x86-windows/debug/lib/zlibd.lib''"
    using check_lib_architecture_more_than_one_machine_type
      [of _ ?F _ "[]" ?dl "[?rl]", THEN conjunct2, THEN conjunct1, THEN mp, OF h2, of "''x86''"]
    unfolding g by simp
  have h4: "\<exists>file \<in> set (recursive_find_files_with_extension_in_dir (filesystem ?F)
                        (packages example_paths @ [spec_dir example_spec] @ [''debug''] @ [''lib'']) ''.lib''
                      @ recursive_find_files_with_extension_in_dir (filesystem ?F)
                        (packages example_paths @ [spec_dir example_spec] @ [''lib'']) ''.lib'').
          length (read_lib ?F file) > 1"
    unfolding complete_package_libs using l by simp
  have 2: "\<exists>out msg. perform_all_checks ?F example_spec example_paths ?D = (out, check_exit_failed msg)"
    using check_lib_architecture_more_than_one_machine_type
      [of "[]" ?F "''x86''" "[]" "[]" "[]" example_paths example_spec ?D,
       THEN conjunct2, THEN conjunct2, THEN conjunct2, THEN mp, OF h4] .
  from l 1 2 show ?thesis by blast
qed

end
